theory Spec2Isabelle
  imports Complex_Main
begin

section \<open>Numbers\<close>

text \<open>
  The autopilot (\<^verbatim>\<open>OUROBOROS_LAB_AUTOPILOT.py\<close>) handles Python floats: relative
  errors, wall-clock durations, costs and the policy constants. Every finite float is a
  rational number and the program only compares, multiplies and divides them, so a float
  is modelled by the rational it denotes (\<^typ>\<open>rat\<close>). Rounding of arithmetic results,
  overflow to infinity and NaN are outside this model; Python integers are \<^typ>\<open>int\<close>.
\<close>

type_synonym pyfloat = rat

section \<open>The verdict tiers (\<^verbatim>\<open>classify\<close>)\<close>

definition PASS_STRICT :: pyfloat where
  "PASS_STRICT = 1 / 10 ^ 12"

definition PASS_GUERR :: pyfloat where
  "PASS_GUERR = 1 / 10 ^ 9"

definition WARN_TOL :: pyfloat where
  "WARN_TOL = 1 / 10 ^ 7"

text \<open>
  The second component is the human-readable meaning. Two of the source's texts contain
  accented letters; they are written by their code points (\<open>0xE1\<close> is a-acute,
  \<open>0xF3\<close> is o-acute).
\<close>

definition classify :: "pyfloat option \<Rightarrow> string \<times> string" where
  "classify rel_err =
     (case rel_err of
        None \<Rightarrow> (''FAIL'', ''No se pudo parsear rel_err: posible cambio de formato o crash.'')
      | Some e \<Rightarrow>
          if e < PASS_STRICT then
            (''PASS_STRICT'', ''Cierre de expediente: convergencia fuerte.'')
          else if e < PASS_GUERR then
            (''PASS_GUERRILLA'', ''Puente operativo: pipeline sano, falta francotirador.'')
          else if e < WARN_TOL then
            (''WARN'', ''Subcalibrado: suele requerir m'' @ [CHR 0xE1] @ ''s dps/terms o suma m''
                       @ [CHR 0xE1] @ ''s estable.'')
          else
            (''FAIL'', ''Error alto: o falta calibraci'' @ [CHR 0xF3]
                       @ ''n extrema o hay bug/modelo incorrecto.''))"

text \<open>
  The order of the tiers, best first, as the specification lists them. Any other string
  ranks with \<open>FAIL\<close>.
\<close>

definition tier_rank :: "string \<Rightarrow> nat" where
  "tier_rank s =
     (if s = ''PASS_STRICT'' then 0
      else if s = ''PASS_GUERRILLA'' then 1
      else if s = ''WARN'' then 2
      else 3)"

section \<open>The cost proxy\<close>

definition cost_proxy :: "pyfloat \<Rightarrow> int \<Rightarrow> int \<Rightarrow> pyfloat" where
  "cost_proxy time_s dps terms =
     time_s * (1 + of_int dps / 80) * (1 + of_int terms / 20000)"

section \<open>Text: regular expressions and \<^verbatim>\<open>float()\<close>\<close>

text \<open>
  Captured output is a Python \<^verbatim>\<open>str\<close>; it is modelled as a \<^typ>\<open>string\<close>, one
  \<^typ>\<open>char\<close> per code point, which covers the code points below 256.

  The six patterns of the source are sequences of three kinds of piece: one character of
  a class, a greedy star of a class, and the captured group \<^verbatim>\<open>([0-9\.Ee+\-]+)\<close>.
  The classes are a literal character, \<^verbatim>\<open>\s\<close>, \<^verbatim>\<open>.\<close> and the number class.
\<close>

datatype atom = Lit char | Space | AnyChar | NumChar

datatype piece = Once atom | Many atom | Group atom

definition is_space :: "char \<Rightarrow> bool" where
  \<comment> \<open>\<^verbatim>\<open>\s\<close> on \<^verbatim>\<open>str\<close>: the Unicode whitespace below 256.\<close>
  "is_space c =
     (let n = (of_char c :: nat)
      in (9 \<le> n \<and> n \<le> 13) \<or> (28 \<le> n \<and> n \<le> 32) \<or> n = 133 \<or> n = 160)"

definition is_digit :: "char \<Rightarrow> bool" where
  "is_digit c = (let n = (of_char c :: nat) in 48 \<le> n \<and> n \<le> 57)"

definition is_numchar :: "char \<Rightarrow> bool" where
  "is_numchar c =
     (is_digit c \<or> c = CHR ''.'' \<or> c = CHR ''E'' \<or> c = CHR ''e'' \<or> c = CHR ''+''
      \<or> c = CHR ''-'')"

fun atom_ok :: "atom \<Rightarrow> char \<Rightarrow> bool" where
  "atom_ok (Lit x) c = (c = x)"
| "atom_ok Space c = is_space c"
| "atom_ok AnyChar c = (c \<noteq> CHR 0x0A)"
| "atom_ok NumChar c = is_numchar c"

text \<open>
  Backtracking over a greedy repetition: the longest run is tried first, then shorter
  ones down to \<open>lo\<close>. \<open>k\<close> counts how many lengths are left to try.
\<close>

fun first_some :: "(nat \<Rightarrow> 'a option) \<Rightarrow> nat \<Rightarrow> nat \<Rightarrow> 'a option" where
  "first_some f lo 0 = None"
| "first_some f lo (Suc k) =
     (case f (lo + k) of Some r \<Rightarrow> Some r | None \<Rightarrow> first_some f lo k)"

text \<open>
  \<open>match_here ps s cap\<close> matches the pieces \<open>ps\<close> at the start of \<open>s\<close>; the result is
  the text of group 1 (\<open>cap\<close> until the group is met), or \<open>None\<close> when there is no match.
\<close>

fun match_here :: "piece list \<Rightarrow> string \<Rightarrow> string \<Rightarrow> string option" where
  "match_here [] s cap = Some cap"
| "match_here (Once a # ps) s cap =
     (case s of
        [] \<Rightarrow> None
      | c # cs \<Rightarrow> if atom_ok a c then match_here ps cs cap else None)"
| "match_here (Many a # ps) s cap =
     first_some (\<lambda>k. match_here ps (drop k s) cap) 0
       (Suc (length (takeWhile (atom_ok a) s)))"
| "match_here (Group a # ps) s cap =
     first_some (\<lambda>k. match_here ps (drop k s) (take k s)) 1
       (length (takeWhile (atom_ok a) s))"

text \<open>\<^verbatim>\<open>regex.search(text)\<close> followed by \<^verbatim>\<open>m.group(1)\<close>: start positions from the left.\<close>

fun re_search :: "piece list \<Rightarrow> string \<Rightarrow> string option" where
  "re_search ps [] = match_here ps [] []"
| "re_search ps (c # cs) =
     (case match_here ps (c # cs) [] of
        Some g \<Rightarrow> Some g
      | None \<Rightarrow> re_search ps cs)"

definition label_pattern :: "string \<Rightarrow> bool \<Rightarrow> piece list" where
  \<comment> \<open>\<^verbatim>\<open>label\s*=\s*(num+)\<close>, or \<^verbatim>\<open>label.*=\s*(num+)\<close> when \<open>dotted\<close>.\<close>
  "label_pattern label dotted =
     map (\<lambda>c. Once (Lit c)) label
     @ [Many (if dotted then AnyChar else Space), Once (Lit CHR ''=''), Many Space,
        Group NumChar]"

definition RE_RELERR :: "piece list" where
  "RE_RELERR = label_pattern ''rel_err'' False"

definition RE_ABSERR :: "piece list" where
  "RE_ABSERR = label_pattern ''abs_err'' False"

definition RE_QGEO :: "piece list" where
  "RE_QGEO = label_pattern ''Q_geo'' True"

definition RE_LP :: "piece list" where
  "RE_LP = label_pattern (''L'' @ [CHR 0x27] @ ''(1)'') True"

definition RE_OMEGA :: "piece list" where
  "RE_OMEGA = label_pattern ''Omega_total'' True"

definition RE_REG :: "piece list" where
  "RE_REG = label_pattern ''Regulator R'' True"

text \<open>
  \<^verbatim>\<open>float(s)\<close> for a string over the characters of the number class, the only strings
  group 1 can hold: an optional sign, digits with an optional point (a digit on at least
  one side), and an optional exponent. Anything else raises \<^verbatim>\<open>ValueError\<close>, here
  \<open>None\<close>. The value is the exact decimal.
\<close>

definition digits_val :: "string \<Rightarrow> nat" where
  "digits_val ds = foldl (\<lambda>n c. 10 * n + (of_char c - 48)) 0 ds"

definition pow10 :: "int \<Rightarrow> rat" where
  "pow10 k = (if 0 \<le> k then 10 ^ nat k else 1 / 10 ^ nat (- k))"

definition strip_sign :: "string \<Rightarrow> bool \<times> string" where
  "strip_sign s =
     (case s of
        [] \<Rightarrow> (False, [])
      | c # cs \<Rightarrow>
          if c = CHR ''-'' then (True, cs)
          else if c = CHR ''+'' then (False, cs)
          else (False, c # cs))"

definition parse_exponent :: "string \<Rightarrow> int option" where
  "parse_exponent s =
     (case s of
        [] \<Rightarrow> Some 0
      | c # cs \<Rightarrow>
          if c = CHR ''e'' \<or> c = CHR ''E'' then
            (let (neg, ds) = strip_sign cs
             in if ds \<noteq> [] \<and> list_all is_digit ds
                then Some (if neg then - int (digits_val ds) else int (digits_val ds))
                else None)
          else None)"

definition py_float :: "string \<Rightarrow> pyfloat option" where
  "py_float s =
     (let (neg, s1) = strip_sign s;
          ip = takeWhile is_digit s1;
          s2 = dropWhile is_digit s1;
          dotted = (s2 \<noteq> [] \<and> hd s2 = CHR ''.'');
          fp = (if dotted then takeWhile is_digit (tl s2) else []);
          s3 = (if dotted then dropWhile is_digit (tl s2) else s2)
      in if ip = [] \<and> fp = [] then None
         else
           (case parse_exponent s3 of
              None \<Rightarrow> None
            | Some ex \<Rightarrow>
                Some ((if neg then - 1 else 1) * of_nat (digits_val (ip @ fp))
                      * pow10 (ex - int (length fp)))))"

definition parse_float :: "piece list \<Rightarrow> string \<Rightarrow> pyfloat option" where
  \<comment> \<open>\<^verbatim>\<open>OuroborosLab._parse_float\<close>\<close>
  "parse_float regex text =
     (case re_search regex text of
        None \<Rightarrow> None
      | Some g \<Rightarrow> py_float g)"

text \<open>
  The reading of the specification, for comparison with \<open>re_search\<close>: the occurrence
  that starts furthest to the right.
\<close>

fun spec_search_last :: "piece list \<Rightarrow> string \<Rightarrow> string option" where
  "spec_search_last ps [] = match_here ps [] []"
| "spec_search_last ps (c # cs) =
     (case spec_search_last ps cs of
        Some g \<Rightarrow> Some g
      | None \<Rightarrow> match_here ps (c # cs) [])"

definition spec_parse_float_last :: "piece list \<Rightarrow> string \<Rightarrow> pyfloat option" where
  "spec_parse_float_last regex text =
     (case spec_search_last regex text of
        None \<Rightarrow> None
      | Some g \<Rightarrow> py_float g)"

section \<open>Data: configurations, trial outcomes, the lab object\<close>

record RunConfig =
  dps :: int
  terms :: int
  extra_args :: "string list"

record RunResult =
  config :: RunConfig
  time_s :: pyfloat
  rel_err :: "pyfloat option"
  abs_err :: "pyfloat option"
  status :: string
  meaning :: string
  Q_geo :: "pyfloat option"
  Lprime1 :: "pyfloat option"
  Omega_total :: "pyfloat option"
  Regulator_R :: "pyfloat option"
  cost :: pyfloat
  stdout_trunc :: string
  returncode :: int

text \<open>
  \<^verbatim>\<open>asdict\<close> turns a trial into a dictionary with the same fields; the report holds the
  trials themselves.
\<close>

record LabReport =
  policy :: "(string \<times> pyfloat) list"
  env :: "(string \<times> string) list"
  experiment_cmd :: string
  experiment_script_hash :: "string option"
  runs :: "RunResult list"
  best :: "RunResult option"
  best_guerrilla :: "RunResult option"

text \<open>
  The fields of an \<^verbatim>\<open>OuroborosLab\<close> object. \<open>lab_runs\<close> is \<^verbatim>\<open>self._runs\<close>, the run
  log; \<open>lab_cmd\<close> is \<^verbatim>\<open>self.experiment_cmd\<close>.
\<close>

record OuroborosLab =
  lab_cmd :: string
  script_hash :: "string option"
  out_json :: string
  max_stdout_chars :: int
  stagnation_window :: int
  stagnation_improve_min :: pyfloat
  cola_ratio_threshold :: pyfloat
  precision_bump :: int
  terms_growth :: int
  lab_runs :: "RunResult list"

definition py_strip :: "string \<Rightarrow> string" where
  "py_strip s = rev (dropWhile is_space (rev (dropWhile is_space s)))"

text \<open>
  The constructor. The hash of the experiment script is computed from a file; the model
  takes the result as an argument.
\<close>

definition OuroborosLab_init ::
  "string \<Rightarrow> string option \<Rightarrow> string \<Rightarrow> int \<Rightarrow> int \<Rightarrow> pyfloat \<Rightarrow> pyfloat \<Rightarrow> int \<Rightarrow> int
   \<Rightarrow> OuroborosLab" where
  "OuroborosLab_init cmd hash out max_chars window improve_min ratio_threshold bump growth =
     \<lparr>lab_cmd = py_strip cmd, script_hash = hash, out_json = out,
      max_stdout_chars = max_chars, stagnation_window = window,
      stagnation_improve_min = improve_min, cola_ratio_threshold = ratio_threshold,
      precision_bump = bump, terms_growth = growth, lab_runs = []\<rparr>"

definition OuroborosLab_default :: "string \<Rightarrow> OuroborosLab" where
  \<comment> \<open>the constructor with its default arguments\<close>
  "OuroborosLab_default cmd =
     OuroborosLab_init cmd None ''ouroboros_report.json'' 4000 3 (1 / 10) (18 / 10) 40 2"

section \<open>The outside world\<close>

text \<open>
  What \<^verbatim>\<open>subprocess.run\<close> returns, with the seconds the two \<^verbatim>\<open>time.time()\<close> calls
  measured around it.
\<close>

record completed =
  out_text :: string
  err_text :: string
  exit_code :: int
  seconds :: pyfloat

text \<open>
  The experiment is any function of the number of launches so far and the configuration
  it is started with. \<open>None\<close> means the process cannot be launched:
  \<^verbatim>\<open>subprocess.run\<close> raises, nothing in the source catches it.
\<close>

type_synonym process = "nat \<Rightarrow> RunConfig \<Rightarrow> completed option"

datatype error = LaunchFailure

record world =
  launches :: nat
  host_env :: "(string \<times> string) list"
  files :: "string \<rightharpoonup> LabReport"

section \<open>One trial (\<^verbatim>\<open>_run_once\<close>)\<close>

definition py_prefix :: "int \<Rightarrow> 'a list \<Rightarrow> 'a list" where
  \<comment> \<open>the slice \<^verbatim>\<open>xs[:n]\<close>\<close>
  "py_prefix n xs =
     (if 0 \<le> n then take (nat n) xs else take (length xs - nat (- n)) xs)"

definition py_suffix :: "int \<Rightarrow> 'a list \<Rightarrow> 'a list" where
  \<comment> \<open>the slice \<^verbatim>\<open>xs[i:]\<close>\<close>
  "py_suffix i xs =
     (if i < 0 then drop (length xs - nat (- i)) xs else drop (nat i) xs)"

definition trial_of :: "OuroborosLab \<Rightarrow> RunConfig \<Rightarrow> completed \<Rightarrow> RunResult" where
  \<comment> \<open>the \<^verbatim>\<open>RunResult\<close> that \<^verbatim>\<open>_run_once\<close> builds from what the process returned\<close>
  "trial_of lab cfg p =
     (let dt = seconds p;
          out = out_text p @ [CHR 0x0A] @ err_text p;
          out_trunc = py_prefix (max_stdout_chars lab) out;
          rel = parse_float RE_RELERR out;
          ab = parse_float RE_ABSERR out;
          qg = parse_float RE_QGEO out;
          lp = parse_float RE_LP out;
          om = parse_float RE_OMEGA out;
          rg = parse_float RE_REG out;
          sm = classify rel
      in \<lparr>config = cfg, time_s = dt, rel_err = rel, abs_err = ab,
          status = fst sm, meaning = snd sm, Q_geo = qg, Lprime1 = lp,
          Omega_total = om, Regulator_R = rg,
          cost = cost_proxy dt (dps cfg) (terms cfg),
          stdout_trunc = out_trunc, returncode = exit_code p\<rparr>)"

definition run_once ::
  "process \<Rightarrow> OuroborosLab \<Rightarrow> world \<Rightarrow> RunConfig
   \<Rightarrow> error + (RunResult \<times> OuroborosLab \<times> world)" where
  "run_once proc lab w cfg =
     (case proc (launches w) cfg of
        None \<Rightarrow> Inl LaunchFailure
      | Some p \<Rightarrow>
          (let rr = trial_of lab cfg p
           in Inr (rr, lab\<lparr>lab_runs := lab_runs lab @ [rr]\<rparr>,
                   w\<lparr>launches := Suc (launches w)\<rparr>)))"

section \<open>Best trial, improvement ratio, stagnation\<close>

fun py_min_by :: "('a \<Rightarrow> pyfloat) \<Rightarrow> 'a \<Rightarrow> 'a list \<Rightarrow> 'a" where
  \<comment> \<open>\<^verbatim>\<open>min(..., key=k)\<close> with \<open>b\<close> the best so far: replaced only by a strictly smaller key\<close>
  "py_min_by k b [] = b"
| "py_min_by k b (x # xs) = py_min_by k (if k x < k b then x else b) xs"

definition best_by :: "(RunResult \<Rightarrow> bool) \<Rightarrow> OuroborosLab \<Rightarrow> RunResult option" where
  "best_by predicate lab =
     (case filter predicate (lab_runs lab) of
        [] \<Rightarrow> None
      | c # cands \<Rightarrow> Some (py_min_by cost c cands))"

definition improvement_ratio :: "pyfloat option \<Rightarrow> pyfloat option \<Rightarrow> pyfloat option" where
  "improvement_ratio old new =
     (case (old, new) of
        (Some a, Some b) \<Rightarrow> if b \<le> 0 then None else Some (a / b)
      | _ \<Rightarrow> None)"

text \<open>
  The loop of \<^verbatim>\<open>_stagnating\<close> over consecutive pairs: \<open>None\<close> is its early
  \<^verbatim>\<open>return False\<close>, otherwise the ratios collected.
\<close>

fun ratio_loop :: "RunResult list \<Rightarrow> pyfloat list \<Rightarrow> pyfloat list option" where
  "ratio_loop (a # b # rest) ratios =
     (case (rel_err a, rel_err b) of
        (Some prev_e, Some curr_e) \<Rightarrow>
          if curr_e \<le> 0 then None else ratio_loop (b # rest) (ratios @ [prev_e / curr_e])
      | _ \<Rightarrow> None)"
| "ratio_loop [a] ratios = Some ratios"
| "ratio_loop [] ratios = Some ratios"

definition stagnating :: "OuroborosLab \<Rightarrow> bool" where
  "stagnating lab =
     (let parsed = filter (\<lambda>r. rel_err r \<noteq> None) (lab_runs lab)
      in if int (length parsed) < stagnation_window lab + 1 then False
         else
           (case ratio_loop (py_suffix (- (stagnation_window lab + 1)) parsed) [] of
              None \<Rightarrow> False
            | Some ratios \<Rightarrow> list_all (\<lambda>r. r < 1 + stagnation_improve_min lab) ratios))"

section \<open>The search loop (\<^verbatim>\<open>OuroborosLab.run\<close>)\<close>

record run_params =
  start_dps :: int
  start_terms :: int
  max_dps :: int
  max_terms :: int
  tol_label :: string
  stop_on :: string
  max_steps :: int
  extra_args_opt :: "string list option"

definition run_defaults :: run_params where
  "run_defaults =
     \<lparr>start_dps = 80, start_terms = 5000, max_dps = 220, max_terms = 100000,
      tol_label = ''1e-18'', stop_on = ''PASS_STRICT'', max_steps = 30,
      extra_args_opt = None\<rparr>"

definition forwarded_args :: "run_params \<Rightarrow> string list" where
  \<comment> \<open>\<^verbatim>\<open>extra_args or ["--tol", tol_label]\<close>: an empty list is falsy too\<close>
  "forwarded_args a =
     (case extra_args_opt a of
        None \<Rightarrow> [''--tol'', tol_label a]
      | Some xs \<Rightarrow> if xs = [] then [''--tol'', tol_label a] else xs)"

definition stop_met :: "string \<Rightarrow> RunResult \<Rightarrow> bool" where
  \<comment> \<open>the stop check, written out twice in the source\<close>
  "stop_met stop r =
     ((stop = ''PASS_STRICT'' \<and> status r = ''PASS_STRICT'')
      \<or> (stop = ''PASS_GUERRILLA''
          \<and> (status r = ''PASS_STRICT'' \<or> status r = ''PASS_GUERRILLA'')))"

text \<open>
  The source keeps no record of why the loop ended. The model labels the three exits:
  a \<^verbatim>\<open>break\<close> after a stop check, the \<^verbatim>\<open>break\<close> of the stagnation branch, and the
  end of \<^verbatim>\<open>range(max_steps)\<close>.
\<close>

datatype stop_state = STOPPED_PASS | STOPPED_BUDGET | STOPPED_CANNOT_GROW

text \<open>
  How one pass through the loop body ends: with a \<^verbatim>\<open>break\<close>, or (by \<^verbatim>\<open>continue\<close> or
  by reaching the end of the body) with the values of \<^verbatim>\<open>dps\<close> and \<^verbatim>\<open>terms\<close> for the
  next pass.
\<close>

datatype flow = Break stop_state | Next int int

definition bump_dps :: "OuroborosLab \<Rightarrow> run_params \<Rightarrow> int \<Rightarrow> int" where
  \<comment> \<open>\<^verbatim>\<open>min(max_dps, dps + self.precision_bump)\<close>\<close>
  "bump_dps lab a d = min (max_dps a) (d + precision_bump lab)"

definition cola_decision ::
  "OuroborosLab \<Rightarrow> run_params \<Rightarrow> int \<Rightarrow> int \<Rightarrow> RunResult \<Rightarrow> RunResult \<Rightarrow> int \<times> int" where
  \<comment> \<open>"Decide next action: cola vs precision": the new \<^verbatim>\<open>(dps, terms)\<close>\<close>
  "cola_decision lab a d t2 r1 r2 =
     (case improvement_ratio (rel_err r1) (rel_err r2) of
        Some ratio \<Rightarrow>
          if ratio \<ge> cola_ratio_threshold lab then (d, t2)
          else ((if d < max_dps a then bump_dps lab a d else d), t2)
      | None \<Rightarrow> ((if d < max_dps a then bump_dps lab a d else d), t2))"

definition lever_switch :: "OuroborosLab \<Rightarrow> run_params \<Rightarrow> int \<Rightarrow> int \<Rightarrow> flow" where
  \<comment> \<open>the stagnation check that ends the loop body\<close>
  "lever_switch lab a d t =
     (if stagnating lab then
        (if d < max_dps a then Next (bump_dps lab a d) t
         else if t < max_terms a then Next d (min (max_terms a) (t * terms_growth lab))
         else Break STOPPED_CANNOT_GROW)
      else Next d t)"

definition loop_body ::
  "process \<Rightarrow> run_params \<Rightarrow> OuroborosLab \<Rightarrow> world \<Rightarrow> int \<Rightarrow> int
   \<Rightarrow> error + (flow \<times> OuroborosLab \<times> world)" where
  "loop_body proc a lab w d t =
     (case run_once proc lab w
             \<lparr>dps = d, terms = t, extra_args = forwarded_args a\<rparr> of
        Inl e \<Rightarrow> Inl e
      | Inr (r1, lab1, w1) \<Rightarrow>
          if stop_met (stop_on a) r1 then Inr (Break STOPPED_PASS, lab1, w1)
          else if rel_err r1 = None \<or> returncode r1 \<noteq> 0 then
            Inr (Next (bump_dps lab1 a d) t, lab1, w1)
          else
            (let t2 = min (max_terms a) (t * terms_growth lab1)
             in if t2 = t then Inr (Next (bump_dps lab1 a d) t, lab1, w1)
                else
                  (case run_once proc lab1 w1
                          \<lparr>dps = d, terms = t2, extra_args = forwarded_args a\<rparr> of
                     Inl e \<Rightarrow> Inl e
                   | Inr (r2, lab2, w2) \<Rightarrow>
                       if stop_met (stop_on a) r2 then Inr (Break STOPPED_PASS, lab2, w2)
                       else
                         (case cola_decision lab2 a d t2 r1 r2 of
                            (d', t') \<Rightarrow> Inr (lever_switch lab2 a d' t', lab2, w2)))))"

text \<open>\<^verbatim>\<open>for step in range(max_steps)\<close>: \<open>n\<close> passes are left.\<close>

fun run_loop ::
  "process \<Rightarrow> run_params \<Rightarrow> nat \<Rightarrow> OuroborosLab \<Rightarrow> world \<Rightarrow> int \<Rightarrow> int
   \<Rightarrow> error + (stop_state \<times> OuroborosLab \<times> world)" where
  "run_loop proc a 0 lab w d t = Inr (STOPPED_BUDGET, lab, w)"
| "run_loop proc a (Suc n) lab w d t =
     (case loop_body proc a lab w d t of
        Inl e \<Rightarrow> Inl e
      | Inr (Break s, lab', w') \<Rightarrow> Inr (s, lab', w')
      | Inr (Next d' t', lab', w') \<Rightarrow> run_loop proc a n lab' w' d' t')"

definition build_report :: "OuroborosLab \<Rightarrow> world \<Rightarrow> LabReport" where
  "build_report lab w =
     \<lparr>policy = [(''PASS_STRICT'', PASS_STRICT), (''PASS_GUERRILLA'', PASS_GUERR),
                (''WARN'', WARN_TOL)],
      env = host_env w,
      experiment_cmd = lab_cmd lab,
      experiment_script_hash = script_hash lab,
      runs = lab_runs lab,
      best = best_by (\<lambda>r. status r = ''PASS_STRICT'') lab,
      best_guerrilla =
        best_by (\<lambda>r. status r = ''PASS_STRICT'' \<or> status r = ''PASS_GUERRILLA'') lab\<rparr>"

text \<open>
  \<open>run\<close> returns the report; the model returns with it the exit taken, the lab object and
  the world, where the report has been written to the file \<open>out_json\<close>. Writing the file
  is taken to succeed.
\<close>

definition run ::
  "process \<Rightarrow> run_params \<Rightarrow> OuroborosLab \<Rightarrow> world
   \<Rightarrow> error + (LabReport \<times> stop_state \<times> OuroborosLab \<times> world)" where
  "run proc a lab w =
     (case run_loop proc a (nat (max_steps a)) lab w (start_dps a) (start_terms a) of
        Inl e \<Rightarrow> Inl e
      | Inr (s, lab', w') \<Rightarrow>
          (let report = build_report lab' w'
           in Inr (report, s, lab', w'\<lparr>files := (files w')(out_json lab' \<mapsto> report)\<rparr>)))"

section \<open>Auxiliary notions for the proofs\<close>

text \<open>The configuration of a trial at precision \<open>d\<close> and series length \<open>t\<close>.\<close>

abbreviation cfg_at :: "run_params \<Rightarrow> int \<Rightarrow> int \<Rightarrow> RunConfig" where
  "cfg_at a d t \<equiv> \<lparr>dps = d, terms = t, extra_args = forwarded_args a\<rparr>"

text \<open>
  \<open>pass_adds proc a lab w new lab' w'\<close>: the trials \<open>new\<close> have been appended to the log,
  one process launch each, and nothing else has changed.
\<close>

definition pass_adds ::
  "process \<Rightarrow> run_params \<Rightarrow> OuroborosLab \<Rightarrow> world \<Rightarrow> RunResult list \<Rightarrow> OuroborosLab \<Rightarrow> world \<Rightarrow> bool" where
  "pass_adds proc a lab w new lab' w' \<longleftrightarrow>
     lab' = lab\<lparr>lab_runs := lab_runs lab @ new\<rparr>
     \<and> w' = w\<lparr>launches := launches w + length new\<rparr>
     \<and> (\<forall>r\<in>set new. \<exists>k cfg p. proc k cfg = Some p \<and> r = trial_of lab cfg p)"


section \<open>Test doubles for the scenarios\<close>

text \<open>
  A mock experiment that prints the same text at every launch, takes \<open>secs\<close> seconds and
  exits with \<open>code\<close>; a mock experiment whose output depends on the series length; an
  experiment that can be launched once and never again; an empty
  world; and a synthetic run log with given relative errors for the stagnation detector.
\<close>

definition mock_process :: "string \<Rightarrow> pyfloat \<Rightarrow> int \<Rightarrow> process" where
  "mock_process printed secs code n cfg =
     Some \<lparr>out_text = printed, err_text = [], exit_code = code, seconds = secs\<rparr>"

definition mock_threshold :: "int \<Rightarrow> string \<Rightarrow> string \<Rightarrow> process" where
  \<comment> \<open>prints \<open>short\<close> while the series length is under \<open>thr\<close>, \<open>long\<close> from there on\<close>
  "mock_threshold thr short long n cfg =
     Some \<lparr>out_text = (if terms cfg < thr then short else long), err_text = [],
           exit_code = 0, seconds = 1\<rparr>"


definition world0 :: world where
  "world0 = \<lparr>launches = 0, host_env = [], files = Map.empty\<rparr>"

definition synthetic_trial :: "pyfloat option \<Rightarrow> RunResult" where
  "synthetic_trial e =
     \<lparr>config = \<lparr>dps = 80, terms = 5000, extra_args = []\<rparr>, time_s = 0, rel_err = e,
      abs_err = None, status = fst (classify e), meaning = snd (classify e), Q_geo = None,
      Lprime1 = None, Omega_total = None, Regulator_R = None, cost = 0, stdout_trunc = [],
      returncode = 0\<rparr>"

definition summary :: "RunResult \<Rightarrow> int \<times> int \<times> string" where
  \<comment> \<open>a trial at a glance: precision, series length, tier\<close>
  "summary r = (dps (config r), terms (config r), status r)"

definition outcome ::
  "error + (LabReport \<times> stop_state \<times> OuroborosLab \<times> world)
   \<Rightarrow> (stop_state \<times> (int \<times> int \<times> string) list \<times> (int \<times> int \<times> string) option
       \<times> (int \<times> int \<times> string) option) option" where
  \<comment> \<open>a finished run at a glance: the exit taken, the trials, the two selections\<close>
  "outcome res =
     (case res of
        Inl e \<Rightarrow> None
      | Inr (rep, s, lab', w') \<Rightarrow>
          Some (s, map summary (runs rep), map_option summary (best rep),
                map_option summary (best_guerrilla rep)))"

definition lab_with_errors :: "pyfloat option list \<Rightarrow> OuroborosLab" where
  "lab_with_errors es = (OuroborosLab_default [])\<lparr>lab_runs := map synthetic_trial es\<rparr>"

section \<open>Properties of the classifier\<close>

lemma classify_status_cases:
  "fst (classify r) = ''PASS_STRICT'' \<or> fst (classify r) = ''PASS_GUERRILLA''
   \<or> fst (classify r) = ''WARN'' \<or> fst (classify r) = ''FAIL''"
  by (simp add: classify_def split: option.split)

lemma classify_rank_mono:
  "a \<le> b \<Longrightarrow> tier_rank (fst (classify (Some a))) \<le> tier_rank (fst (classify (Some b)))"
  by (simp add: classify_def tier_rank_def PASS_STRICT_def PASS_GUERR_def WARN_TOL_def)

lemma classify_None_meaning:
  "snd (classify None) \<noteq> snd (classify (Some e))"
  by (simp add: classify_def)

text \<open>
  Claim C1. For every optional relative error, \<open>classify\<close> returns one of the four tiers
  \<open>PASS_STRICT\<close>, \<open>PASS_GUERRILLA\<close>, \<open>WARN\<close>, \<open>FAIL\<close>, with half-open boundaries at
  \<open>1e-12\<close>, \<open>1e-9\<close> and \<open>1e-7\<close>: below \<open>1e-12\<close> it is \<open>PASS_STRICT\<close>; from \<open>1e-12\<close>
  and below \<open>1e-9\<close> it is \<open>PASS_GUERRILLA\<close>; from \<open>1e-9\<close> and below \<open>1e-7\<close> it is
  \<open>WARN\<close>; from \<open>1e-7\<close> on it is \<open>FAIL\<close>. An absent relative error is \<open>FAIL\<close>, with a
  meaning text that no numeric input receives. The classifier is monotone: a smaller
  relative error never gets a worse tier than a larger one.
\<close>

theorem classify_tiers:
  "(fst (classify r) = ''PASS_STRICT'' \<or> fst (classify r) = ''PASS_GUERRILLA''
      \<or> fst (classify r) = ''WARN'' \<or> fst (classify r) = ''FAIL'')
   \<and> (e1 < 1 / 10 ^ 12 \<longrightarrow> fst (classify (Some e1)) = ''PASS_STRICT'')
   \<and> (1 / 10 ^ 12 \<le> e2 \<and> e2 < 1 / 10 ^ 9 \<longrightarrow> fst (classify (Some e2)) = ''PASS_GUERRILLA'')
   \<and> (1 / 10 ^ 9 \<le> e3 \<and> e3 < 1 / 10 ^ 7 \<longrightarrow> fst (classify (Some e3)) = ''WARN'')
   \<and> (1 / 10 ^ 7 \<le> e4 \<longrightarrow> fst (classify (Some e4)) = ''FAIL'')
   \<and> fst (classify None) = ''FAIL''
   \<and> snd (classify None) \<noteq> snd (classify (Some e))
   \<and> (a \<le> b \<longrightarrow> tier_rank (fst (classify (Some a))) \<le> tier_rank (fst (classify (Some b))))"
proof -
  have tiers: "e1 < 1 / 10 ^ 12 \<longrightarrow> fst (classify (Some e1)) = ''PASS_STRICT''"
    "1 / 10 ^ 12 \<le> e2 \<and> e2 < 1 / 10 ^ 9 \<longrightarrow> fst (classify (Some e2)) = ''PASS_GUERRILLA''"
    "1 / 10 ^ 9 \<le> e3 \<and> e3 < 1 / 10 ^ 7 \<longrightarrow> fst (classify (Some e3)) = ''WARN''"
    "1 / 10 ^ 7 \<le> e4 \<longrightarrow> fst (classify (Some e4)) = ''FAIL''"
    by (simp_all add: classify_def PASS_STRICT_def PASS_GUERR_def WARN_TOL_def)
  have absent: "fst (classify None) = ''FAIL''"
    by (simp add: classify_def)
  show ?thesis
    using classify_status_cases [of r] tiers absent classify_None_meaning [of e]
      classify_rank_mono [of a b]
    by blast
qed

theorem classify_tiers_witness:
  "fst (classify (Some (1 / 10 ^ 13))) = ''PASS_STRICT''
   \<and> fst (classify (Some (1 / 10 ^ 12))) = ''PASS_GUERRILLA''
   \<and> fst (classify (Some (1 / 10 ^ 9))) = ''WARN''
   \<and> fst (classify (Some (1 / 10 ^ 7))) = ''FAIL''
   \<and> tier_rank (fst (classify (Some (1 / 10 ^ 13)))) \<le> tier_rank (fst (classify (Some (1 / 10 ^ 8))))"
  using classify_tiers [of None "1 / 10 ^ 13" "1 / 10 ^ 12" "1 / 10 ^ 9" "1 / 10 ^ 7" 0
      "1 / 10 ^ 13" "1 / 10 ^ 8"]
  by (simp add: tier_rank_def)

section \<open>Properties of the result extractor\<close>

lemma re_search_first:
  "i \<le> length s \<Longrightarrow> match_here ps (drop i s) [] = Some g
   \<Longrightarrow> \<forall>j<i. match_here ps (drop j s) [] = None \<Longrightarrow> re_search ps s = Some g"
proof (induction s arbitrary: i)
  case Nil
  then show ?case by simp
next
  case (Cons c cs)
  show ?case
  proof (cases i)
    case 0
    with Cons.prems show ?thesis by simp
  next
    case (Suc k)
    with Cons.prems have none0: "match_here ps (c # cs) [] = None"
      by (metis drop0 zero_less_Suc)
    have "\<forall>j<k. match_here ps (drop j cs) [] = None"
    proof (intro allI impI)
      fix j assume "j < k"
      then have "Suc j < i" using Suc by simp
      with Cons.prems(3) have "match_here ps (drop (Suc j) (c # cs)) [] = None" by blast
      then show "match_here ps (drop j cs) [] = None" by simp
    qed
    moreover have "k \<le> length cs" "match_here ps (drop k cs) [] = Some g"
      using Cons.prems Suc by simp_all
    ultimately have "re_search ps cs = Some g" using Cons.IH by blast
    with none0 show ?thesis by simp
  qed
qed

lemma re_search_none:
  "\<forall>j\<le>length s. match_here ps (drop j s) [] = None \<Longrightarrow> re_search ps s = None"
proof (induction s)
  case Nil
  then show ?case by simp
next
  case (Cons c cs)
  have "match_here ps (c # cs) [] = None" using Cons.prems by (metis drop0 le0)
  moreover have "\<forall>j\<le>length cs. match_here ps (drop j cs) [] = None"
  proof (intro allI impI)
    fix j assume "j \<le> length cs"
    then have "Suc j \<le> length (c # cs)" by simp
    with Cons.prems have "match_here ps (drop (Suc j) (c # cs)) [] = None" by blast
    then show "match_here ps (drop j cs) [] = None" by simp
  qed
  ultimately show ?case using Cons.IH by simp
qed

lemmas text_eval =
  parse_float_def spec_parse_float_last_def label_pattern_def py_float_def strip_sign_def
  parse_exponent_def is_digit_def is_numchar_def is_space_def digits_val_def pow10_def
  RE_RELERR_def RE_ABSERR_def RE_QGEO_def RE_LP_def RE_OMEGA_def RE_REG_def

text \<open>
  Claim C4, as amended. When a label pattern matches more than once in the captured text,
  the extractor returns the number of the first (leftmost) occurrence, not of the last:
  if the pattern matches at offset \<open>i\<close> with group \<open>g\<close> and at no offset before \<open>i\<close>,
  the result is \<^verbatim>\<open>float(g)\<close> (absent when \<open>g\<close> is not a number), whatever follows; and
  when the pattern matches nowhere the result is absent.
\<close>

theorem parse_float_first_occurrence:
  "(i \<le> length s \<and> match_here regex (drop i s) [] = Some g
      \<and> (\<forall>j<i. match_here regex (drop j s) [] = None)
    \<longrightarrow> parse_float regex s = py_float g)
   \<and> ((\<forall>j\<le>length s. match_here regex (drop j s) [] = None)
    \<longrightarrow> parse_float regex s = None)"
  using re_search_first [of i s regex g] re_search_none [of s regex]
  by (simp add: parse_float_def)

theorem parse_float_first_occurrence_witness:
  "match_here RE_RELERR
     (drop 3 (''-- rel_err = 1e-5'' @ [CHR 0x0A] @ ''rel_err = 1e-13'')) [] = Some ''1e-5''
   \<and> parse_float RE_RELERR (''-- rel_err = 1e-5'' @ [CHR 0x0A] @ ''rel_err = 1e-13'')
       = Some (1 / 10 ^ 5)"
proof -
  let ?t = "''-- rel_err = 1e-5'' @ [CHR 0x0A] @ ''rel_err = 1e-13''"
  have m: "match_here RE_RELERR (drop 3 ?t) [] = Some ''1e-5''"
    by (simp add: text_eval)
  have n: "\<forall>j<3. match_here RE_RELERR (drop j ?t) [] = None"
    by (simp add: text_eval numeral_3_eq_3 less_Suc_eq)
  have v: "py_float ''1e-5'' = Some (1 / 10 ^ 5)"
    by (simp add: text_eval)
  have "parse_float RE_RELERR ?t = py_float ''1e-5''"
    using parse_float_first_occurrence [of 3 ?t RE_RELERR "''1e-5''"] m n by simp
  with m v show ?thesis by simp
qed

text \<open>
  Claim C4 as stated fails: on a text with two \<open>rel_err\<close> lines the extractor returns the
  value of the first line, \<open>1e-5\<close>, while the last occurrence carries \<open>1e-13\<close>.
\<close>

theorem parse_float_last_counterexample:
  "parse_float RE_RELERR (''rel_err = 1e-5'' @ [CHR 0x0A] @ ''rel_err = 1e-13'')
     = Some (1 / 10 ^ 5)
   \<and> spec_parse_float_last RE_RELERR (''rel_err = 1e-5'' @ [CHR 0x0A] @ ''rel_err = 1e-13'')
       = Some (1 / 10 ^ 13)"
  by (simp add: text_eval)

section \<open>Properties of the best-trial selection\<close>

lemma py_min_by_split:
  "\<exists>ys zs. b # xs = ys @ py_min_by k b xs # zs
     \<and> (\<forall>y\<in>set ys. k (py_min_by k b xs) < k y)
     \<and> (\<forall>z\<in>set zs. k (py_min_by k b xs) \<le> k z)"
proof (induction xs arbitrary: b)
  case Nil
  have "b # [] = [] @ py_min_by k b [] # []
        \<and> (\<forall>y\<in>set []. k (py_min_by k b []) < k y)
        \<and> (\<forall>z\<in>set []. k (py_min_by k b []) \<le> k z)" by simp
  then show ?case by (intro exI)
next
  case (Cons x xs)
  show ?case
  proof (cases "k x < k b")
    case True
    define m where "m = py_min_by k x xs"
    have m: "py_min_by k b (x # xs) = m" using True by (simp add: m_def)
    from Cons.IH [of x] obtain ys zs where
      split: "x # xs = ys @ m # zs"
      and before: "\<forall>y\<in>set ys. k m < k y"
      and after: "\<forall>z\<in>set zs. k m \<le> k z"
      unfolding m_def by blast
    have "x \<in> set (ys @ m # zs)" using split by (metis list.set_intros(1))
    then have "k m \<le> k x" using before after by auto
    then have "k m < k b" using True by simp
    then have "b # x # xs = (b # ys) @ m # zs
        \<and> (\<forall>y\<in>set (b # ys). k m < k y) \<and> (\<forall>z\<in>set zs. k m \<le> k z)"
      using split before after by simp
    then show ?thesis unfolding m by (intro exI)
  next
    case False
    define m where "m = py_min_by k b xs"
    have m: "py_min_by k b (x # xs) = m" using False by (simp add: m_def)
    from Cons.IH [of b] obtain ys zs where
      split: "b # xs = ys @ m # zs"
      and before: "\<forall>y\<in>set ys. k m < k y"
      and after: "\<forall>z\<in>set zs. k m \<le> k z"
      unfolding m_def by blast
    show ?thesis
    proof (cases ys)
      case Nil
      with split have "m = b" "zs = xs" by simp_all
      then have "b # x # xs = [] @ m # (x # xs)
          \<and> (\<forall>y\<in>set []. k m < k y) \<and> (\<forall>z\<in>set (x # xs). k m \<le> k z)"
        using False after by simp
      then show ?thesis unfolding m by (intro exI)
    next
      case (Cons y ys')
      with split have yb: "y = b" and rest: "xs = ys' @ m # zs" by simp_all
      have "k m < k b" using before Cons yb by simp
      then have "b # x # xs = (b # x # ys') @ m # zs
          \<and> (\<forall>u\<in>set (b # x # ys'). k m < k u) \<and> (\<forall>z\<in>set zs. k m \<le> k z)"
        using False rest before after Cons by simp
      then show ?thesis unfolding m by (intro exI)
    qed
  qed
qed

lemma filter_split:
  "filter P rs = ys @ m # zs \<Longrightarrow>
   \<exists>us vs. rs = us @ m # vs \<and> filter P us = ys \<and> filter P vs = zs"
proof (induction rs arbitrary: ys)
  case Nil
  then show ?case by simp
next
  case (Cons r rs)
  show ?case
  proof (cases "P r")
    case False
    with Cons.prems have "filter P rs = ys @ m # zs" by simp
    from Cons.IH [OF this] obtain us vs where
      "rs = us @ m # vs" "filter P us = ys" "filter P vs = zs" by blast
    with False have "r # rs = (r # us) @ m # vs \<and> filter P (r # us) = ys \<and> filter P vs = zs"
      by simp
    then show ?thesis by blast
  next
    case True
    with Cons.prems have eq: "r # filter P rs = ys @ m # zs" by simp
    show ?thesis
    proof (cases ys)
      case Nil
      with eq have "r # rs = [] @ m # rs \<and> filter P [] = ys \<and> filter P rs = zs" by simp
      then show ?thesis by blast
    next
      case (Cons y ys')
      with eq have ry: "r = y" and "filter P rs = ys' @ m # zs" by simp_all
      from Cons.IH [OF this(2)] obtain us vs where
        "rs = us @ m # vs" "filter P us = ys'" "filter P vs = zs" by blast
      with True ry Cons
      have "r # rs = (r # us) @ m # vs \<and> filter P (r # us) = ys \<and> filter P vs = zs"
        by simp
      then show ?thesis by blast
    qed
  qed
qed

lemma best_by_spec:
  "(best_by P lab = None \<longleftrightarrow> (\<forall>r\<in>set (lab_runs lab). \<not> P r))
   \<and> (best_by P lab = Some m \<longrightarrow>
        P m \<and> (\<exists>us vs. lab_runs lab = us @ m # vs
                 \<and> (\<forall>u\<in>set us. P u \<longrightarrow> cost m < cost u)
                 \<and> (\<forall>v\<in>set vs. P v \<longrightarrow> cost m \<le> cost v)))"
proof (cases "filter P (lab_runs lab)")
  case Nil
  then have "\<forall>r\<in>set (lab_runs lab). \<not> P r" by (simp add: filter_empty_conv)
  with Nil show ?thesis by (simp add: best_by_def)
next
  case (Cons c cands)
  then have ex: "\<not> (\<forall>r\<in>set (lab_runs lab). \<not> P r)"
    by (metis filter_empty_conv list.distinct(1))
  have b: "best_by P lab = Some (py_min_by cost c cands)"
    using Cons by (simp add: best_by_def)
  from py_min_by_split [of c cands cost] obtain ys zs where
    split: "c # cands = ys @ py_min_by cost c cands # zs"
    and before: "\<forall>y\<in>set ys. cost (py_min_by cost c cands) < cost y"
    and after: "\<forall>z\<in>set zs. cost (py_min_by cost c cands) \<le> cost z"
    by blast
  let ?m = "py_min_by cost c cands"
  from split Cons have f: "filter P (lab_runs lab) = ys @ ?m # zs" by simp
  from filter_split [OF f] obtain us vs where
    log: "lab_runs lab = us @ ?m # vs" and fu: "filter P us = ys" and fv: "filter P vs = zs"
    by blast
  have "?m \<in> set (filter P (lab_runs lab))" unfolding f by simp
  then have pm: "P ?m" by simp
  have bu: "\<forall>u\<in>set us. P u \<longrightarrow> cost ?m < cost u"
  proof (intro ballI impI)
    fix u assume "u \<in> set us" "P u"
    then have "u \<in> set ys" unfolding fu [symmetric] by simp
    with before show "cost ?m < cost u" by blast
  qed
  have av: "\<forall>v\<in>set vs. P v \<longrightarrow> cost ?m \<le> cost v"
  proof (intro ballI impI)
    fix v assume "v \<in> set vs" "P v"
    then have "v \<in> set zs" unfolding fv [symmetric] by simp
    with after show "cost ?m \<le> cost v" by blast
  qed
  have second: "best_by P lab = Some m \<longrightarrow>
        P m \<and> (\<exists>us vs. lab_runs lab = us @ m # vs
                 \<and> (\<forall>u\<in>set us. P u \<longrightarrow> cost m < cost u)
                 \<and> (\<forall>v\<in>set vs. P v \<longrightarrow> cost m \<le> cost v))"
  proof
    assume "best_by P lab = Some m"
    with b have mm: "m = ?m" by simp
    have "lab_runs lab = us @ m # vs
                 \<and> (\<forall>u\<in>set us. P u \<longrightarrow> cost m < cost u)
                 \<and> (\<forall>v\<in>set vs. P v \<longrightarrow> cost m \<le> cost v)"
      unfolding mm using log bu av by (intro conjI)
    then have "\<exists>us vs. lab_runs lab = us @ m # vs
                 \<and> (\<forall>u\<in>set us. P u \<longrightarrow> cost m < cost u)
                 \<and> (\<forall>v\<in>set vs. P v \<longrightarrow> cost m \<le> cost v)"
      by (intro exI)
    with pm mm show "P m \<and> (\<exists>us vs. lab_runs lab = us @ m # vs
                 \<and> (\<forall>u\<in>set us. P u \<longrightarrow> cost m < cost u)
                 \<and> (\<forall>v\<in>set vs. P v \<longrightarrow> cost m \<le> cost v))" by simp
  qed
  have first: "best_by P lab = None \<longleftrightarrow> (\<forall>r\<in>set (lab_runs lab). \<not> P r)"
    using b ex by simp
  from first second show ?thesis by (rule conjI)
qed

lemma run_report:
  "run proc a lab0 w0 = Inr (rep, s, lab, w) \<Longrightarrow> rep = build_report lab w"
  by (auto simp: run_def build_report_def Let_def split: sum.splits prod.splits)

text \<open>
  Claim C5. For every run log, the report's best-strict selection is absent exactly when no
  trial has status \<open>PASS_STRICT\<close>; when present it is a \<open>PASS_STRICT\<close> trial of the log
  whose cost is the least among the \<open>PASS_STRICT\<close> trials, and every \<open>PASS_STRICT\<close> trial
  before it in the log costs strictly more, so that among equal costs the chronologically
  earliest is selected. The same holds for the best-guerrilla selection among the trials
  with status \<open>PASS_STRICT\<close> or \<open>PASS_GUERRILLA\<close>. The report that \<open>run\<close> returns is built
  this way from the final run log.
\<close>

theorem report_best_selection:
  "(best (build_report lab w) = None
      \<longleftrightarrow> (\<forall>r\<in>set (runs (build_report lab w)). status r \<noteq> ''PASS_STRICT''))
   \<and> (best (build_report lab w) = Some m \<longrightarrow>
        status m = ''PASS_STRICT''
        \<and> (\<exists>us vs. runs (build_report lab w) = us @ m # vs
              \<and> (\<forall>u\<in>set us. status u = ''PASS_STRICT'' \<longrightarrow> cost m < cost u)
              \<and> (\<forall>v\<in>set vs. status v = ''PASS_STRICT'' \<longrightarrow> cost m \<le> cost v)))
   \<and> (best_guerrilla (build_report lab w) = None
      \<longleftrightarrow> (\<forall>r\<in>set (runs (build_report lab w)).
             \<not> (status r = ''PASS_STRICT'' \<or> status r = ''PASS_GUERRILLA'')))
   \<and> (best_guerrilla (build_report lab w) = Some g \<longrightarrow>
        (status g = ''PASS_STRICT'' \<or> status g = ''PASS_GUERRILLA'')
        \<and> (\<exists>us vs. runs (build_report lab w) = us @ g # vs
              \<and> (\<forall>u\<in>set us. status u = ''PASS_STRICT'' \<or> status u = ''PASS_GUERRILLA''
                     \<longrightarrow> cost g < cost u)
              \<and> (\<forall>v\<in>set vs. status v = ''PASS_STRICT'' \<or> status v = ''PASS_GUERRILLA''
                     \<longrightarrow> cost g \<le> cost v)))
   \<and> (run proc a lab0 w0 = Inr (rep, s, lab, w) \<longrightarrow> rep = build_report lab w)"
proof -
  have sel: "best (build_report lab w) = best_by (\<lambda>r. status r = ''PASS_STRICT'') lab"
    "best_guerrilla (build_report lab w)
       = best_by (\<lambda>r. status r = ''PASS_STRICT'' \<or> status r = ''PASS_GUERRILLA'') lab"
    "runs (build_report lab w) = lab_runs lab"
    by (simp_all add: build_report_def)
  show ?thesis
    unfolding sel
    using best_by_spec [of "\<lambda>r. status r = ''PASS_STRICT''" lab m]
      best_by_spec [of "\<lambda>r. status r = ''PASS_STRICT'' \<or> status r = ''PASS_GUERRILLA''" lab g]
      run_report [of proc a lab0 w0 rep s lab w]
    by blast
qed

theorem report_best_selection_witness:
  "best (build_report (lab_with_errors [Some (1 / 10 ^ 10), Some (1 / 10 ^ 13), Some (1 / 10 ^ 14)])
           world0) = Some (synthetic_trial (Some (1 / 10 ^ 13)))
   \<and> status (synthetic_trial (Some (1 / 10 ^ 13))) = ''PASS_STRICT''
   \<and> best_guerrilla
        (build_report (lab_with_errors [Some (1 / 10 ^ 10), Some (1 / 10 ^ 13), Some (1 / 10 ^ 14)])
           world0) = Some (synthetic_trial (Some (1 / 10 ^ 10)))
   \<and> status (synthetic_trial (Some (1 / 10 ^ 10))) = ''PASS_GUERRILLA''"
proof -
  let ?lab = "lab_with_errors [Some (1 / 10 ^ 10), Some (1 / 10 ^ 13), Some (1 / 10 ^ 14)]"
  have b: "best (build_report ?lab world0) = Some (synthetic_trial (Some (1 / 10 ^ 13)))"
    by (simp add: build_report_def best_by_def lab_with_errors_def synthetic_trial_def
        classify_def PASS_STRICT_def PASS_GUERR_def WARN_TOL_def)
  have g: "best_guerrilla (build_report ?lab world0) = Some (synthetic_trial (Some (1 / 10 ^ 10)))"
    by (simp add: build_report_def best_by_def lab_with_errors_def synthetic_trial_def
        classify_def PASS_STRICT_def PASS_GUERR_def WARN_TOL_def)
  have s: "status (synthetic_trial (Some (1 / 10 ^ 10))) = ''PASS_GUERRILLA''"
    by (simp add: synthetic_trial_def classify_def PASS_STRICT_def PASS_GUERR_def)
  show ?thesis
    using report_best_selection [of ?lab world0 "synthetic_trial (Some (1 / 10 ^ 13))"
        "synthetic_trial (Some (1 / 10 ^ 10))"] b g s
    by simp
qed

section \<open>Properties of the stagnation detector\<close>








section \<open>Properties of the search loop\<close>

lemma trial_of_simps:
  "config (trial_of lab cfg p) = cfg"
  "time_s (trial_of lab cfg p) = seconds p"
  "rel_err (trial_of lab cfg p) = parse_float RE_RELERR (out_text p @ [CHR 0x0A] @ err_text p)"
  "status (trial_of lab cfg p)
     = fst (classify (parse_float RE_RELERR (out_text p @ [CHR 0x0A] @ err_text p)))"
  "cost (trial_of lab cfg p) = cost_proxy (seconds p) (dps cfg) (terms cfg)"
  "returncode (trial_of lab cfg p) = exit_code p"
  by (simp_all add: trial_of_def Let_def)

lemma trial_of_log_update:
  "trial_of (lab\<lparr>lab_runs := rs\<rparr>) cfg p = trial_of lab cfg p"
  by (simp add: trial_of_def)

lemma run_once_Inr:
  assumes "run_once proc lab w cfg = Inr (r, lab1, w1)"
  shows "(\<exists>p. proc (launches w) cfg = Some p \<and> r = trial_of lab cfg p)
         \<and> lab1 = lab\<lparr>lab_runs := lab_runs lab @ [r]\<rparr>
         \<and> w1 = w\<lparr>launches := Suc (launches w)\<rparr>"
  using assms by (auto simp: run_once_def Let_def split: option.splits)

lemma run_once_Inl:
  "run_once proc lab w cfg = Inl e \<Longrightarrow> proc (launches w) cfg = None"
  by (auto simp: run_once_def Let_def split: option.splits)

lemma run_once_total:
  "proc (launches w) cfg \<noteq> None \<Longrightarrow> \<exists>r lab1 w1. run_once proc lab w cfg = Inr (r, lab1, w1)"
  by (auto simp: run_once_def Let_def split: option.splits)

lemma run_once_status:
  "run_once proc lab w cfg = Inr (r, lab1, w1) \<Longrightarrow> status r = fst (classify (rel_err r))"
  using run_once_Inr [of proc lab w cfg r lab1 w1] by (auto simp: trial_of_simps)

lemma loop_body_fail1:
  "run_once proc lab w (cfg_at a d t) = Inl e \<Longrightarrow> loop_body proc a lab w d t = Inl e"
  by (simp add: loop_body_def)

lemma loop_body_stop1:
  "run_once proc lab w (cfg_at a d t) = Inr (r1, lab1, w1) \<Longrightarrow> stop_met (stop_on a) r1
   \<Longrightarrow> loop_body proc a lab w d t = Inr (Break STOPPED_PASS, lab1, w1)"
  by (simp add: loop_body_def)

lemma loop_body_retry:
  "run_once proc lab w (cfg_at a d t) = Inr (r1, lab1, w1) \<Longrightarrow> \<not> stop_met (stop_on a) r1
   \<Longrightarrow> rel_err r1 = None \<or> returncode r1 \<noteq> 0
   \<Longrightarrow> loop_body proc a lab w d t = Inr (Next (bump_dps lab1 a d) t, lab1, w1)"
  by (simp add: loop_body_def)

lemma loop_body_ceiling:
  "run_once proc lab w (cfg_at a d t) = Inr (r1, lab1, w1) \<Longrightarrow> \<not> stop_met (stop_on a) r1
   \<Longrightarrow> rel_err r1 = Some e1 \<Longrightarrow> returncode r1 = 0
   \<Longrightarrow> min (max_terms a) (t * terms_growth lab1) = t
   \<Longrightarrow> loop_body proc a lab w d t = Inr (Next (bump_dps lab1 a d) t, lab1, w1)"
  by (simp add: loop_body_def Let_def)

lemma loop_body_fail2:
  "run_once proc lab w (cfg_at a d t) = Inr (r1, lab1, w1) \<Longrightarrow> \<not> stop_met (stop_on a) r1
   \<Longrightarrow> rel_err r1 = Some e1 \<Longrightarrow> returncode r1 = 0
   \<Longrightarrow> min (max_terms a) (t * terms_growth lab1) \<noteq> t
   \<Longrightarrow> run_once proc lab1 w1 (cfg_at a d (min (max_terms a) (t * terms_growth lab1))) = Inl e
   \<Longrightarrow> loop_body proc a lab w d t = Inl e"
  by (simp add: loop_body_def Let_def)

lemma loop_body_stop2:
  "run_once proc lab w (cfg_at a d t) = Inr (r1, lab1, w1) \<Longrightarrow> \<not> stop_met (stop_on a) r1
   \<Longrightarrow> rel_err r1 = Some e1 \<Longrightarrow> returncode r1 = 0
   \<Longrightarrow> min (max_terms a) (t * terms_growth lab1) \<noteq> t
   \<Longrightarrow> run_once proc lab1 w1 (cfg_at a d (min (max_terms a) (t * terms_growth lab1)))
        = Inr (r2, lab2, w2)
   \<Longrightarrow> stop_met (stop_on a) r2
   \<Longrightarrow> loop_body proc a lab w d t = Inr (Break STOPPED_PASS, lab2, w2)"
  by (simp add: loop_body_def Let_def)

lemma loop_body_decide:
  "run_once proc lab w (cfg_at a d t) = Inr (r1, lab1, w1) \<Longrightarrow> \<not> stop_met (stop_on a) r1
   \<Longrightarrow> rel_err r1 = Some e1 \<Longrightarrow> returncode r1 = 0
   \<Longrightarrow> min (max_terms a) (t * terms_growth lab1) \<noteq> t
   \<Longrightarrow> run_once proc lab1 w1 (cfg_at a d (min (max_terms a) (t * terms_growth lab1)))
        = Inr (r2, lab2, w2)
   \<Longrightarrow> \<not> stop_met (stop_on a) r2
   \<Longrightarrow> loop_body proc a lab w d t =
        Inr (lever_switch lab2 a
               (fst (cola_decision lab2 a d (min (max_terms a) (t * terms_growth lab1)) r1 r2))
               (snd (cola_decision lab2 a d (min (max_terms a) (t * terms_growth lab1)) r1 r2)),
             lab2, w2)"
  by (simp add: loop_body_def Let_def split: prod.splits)

lemma lever_switch_pass: "lever_switch lab a d t \<noteq> Break STOPPED_PASS"
  by (simp add: lever_switch_def)

lemma loop_body_log:
  assumes "loop_body proc a lab w d t = Inr (f, lab', w')"
  shows "\<exists>new. pass_adds proc a lab w new lab' w' \<and> (length new = 1 \<or> length new = 2)
           \<and> (f = Break STOPPED_PASS \<longrightarrow> (\<exists>r\<in>set new. stop_met (stop_on a) r))"
proof (cases "run_once proc lab w (cfg_at a d t)")
  case (Inl e)
  with assms loop_body_fail1 show ?thesis by fastforce
next
  case (Inr x)
  then obtain r1 lab1 w1 where r1: "run_once proc lab w (cfg_at a d t) = Inr (r1, lab1, w1)"
    by (cases x) auto
  note f1 = run_once_Inr [OF r1]
  have one: "pass_adds proc a lab w [r1] lab1 w1"
    using f1 by (auto simp: pass_adds_def)
  let ?t2 = "min (max_terms a) (t * terms_growth lab1)"
  consider (stop1) "stop_met (stop_on a) r1"
    | (retry) "\<not> stop_met (stop_on a) r1" "rel_err r1 = None \<or> returncode r1 \<noteq> 0"
    | (ceiling) e1 where "\<not> stop_met (stop_on a) r1" "rel_err r1 = Some e1"
        "returncode r1 = 0" "?t2 = t"
    | (second) e1 where "\<not> stop_met (stop_on a) r1" "rel_err r1 = Some e1"
        "returncode r1 = 0" "?t2 \<noteq> t"
    by (cases "rel_err r1") auto
  then show ?thesis
  proof cases
    case stop1
    from loop_body_stop1 [OF r1 stop1] assms
    have "f = Break STOPPED_PASS" "lab' = lab1" "w' = w1" by simp_all
    with one stop1 show ?thesis by (intro exI [of _ "[r1]"]) simp
  next
    case retry
    from loop_body_retry [OF r1 retry] assms
    have "f = Next (bump_dps lab1 a d) t" "lab' = lab1" "w' = w1" by simp_all
    with one show ?thesis by (intro exI [of _ "[r1]"]) simp
  next
    case ceiling
    from loop_body_ceiling [OF r1 ceiling] assms
    have "f = Next (bump_dps lab1 a d) t" "lab' = lab1" "w' = w1" by simp_all
    with one show ?thesis by (intro exI [of _ "[r1]"]) simp
  next
    case second
    show ?thesis
    proof (cases "run_once proc lab1 w1 (cfg_at a d ?t2)")
      case (Inl e)
      from loop_body_fail2 [OF r1 second Inl] assms show ?thesis by simp
    next
      case (Inr y)
      then obtain r2 lab2 w2 where
        r2: "run_once proc lab1 w1 (cfg_at a d ?t2) = Inr (r2, lab2, w2)"
        by (cases y) auto
      note f2 = run_once_Inr [OF r2]
      have two: "pass_adds proc a lab w [r1, r2] lab2 w2"
        using f1 f2 by (auto simp: pass_adds_def trial_of_log_update)
      show ?thesis
      proof (cases "stop_met (stop_on a) r2")
        case True
        from loop_body_stop2 [OF r1 second r2 True] assms
        have "f = Break STOPPED_PASS" "lab' = lab2" "w' = w2" by simp_all
        with two True show ?thesis by (intro exI [of _ "[r1, r2]"]) simp
      next
        case False
        from loop_body_decide [OF r1 second r2 False] assms
        have "f \<noteq> Break STOPPED_PASS" "lab' = lab2" "w' = w2"
          using lever_switch_pass by auto
        with two show ?thesis by (intro exI [of _ "[r1, r2]"]) simp
      qed
    qed
  qed
qed

lemma pass_adds_trans:
  "pass_adds proc a lab w new1 lab1 w1 \<Longrightarrow> pass_adds proc a lab1 w1 new2 lab2 w2
   \<Longrightarrow> pass_adds proc a lab w (new1 @ new2) lab2 w2"
  by (auto simp: pass_adds_def trial_of_log_update)

lemma run_loop_log:
  "run_loop proc a n lab w d t = Inr (s, lab', w') \<Longrightarrow>
   \<exists>new. pass_adds proc a lab w new lab' w' \<and> length new \<le> 2 * n
         \<and> (s = STOPPED_PASS \<longrightarrow> (\<exists>r\<in>set new. stop_met (stop_on a) r))"
proof (induction n arbitrary: lab w d t)
  case 0
  then have "pass_adds proc a lab w [] lab' w'" by (simp add: pass_adds_def)
  moreover have "s \<noteq> STOPPED_PASS" using 0 by auto
  ultimately show ?case by (intro exI [of _ "[]"]) simp
next
  case (Suc n)
  show ?case
  proof (cases "loop_body proc a lab w d t")
    case (Inl e)
    with Suc.prems show ?thesis by simp
  next
    case (Inr x)
    then obtain f lab1 w1 where b: "loop_body proc a lab w d t = Inr (f, lab1, w1)"
      by (cases x) auto
    from loop_body_log [OF b] obtain new1 where
      n1: "pass_adds proc a lab w new1 lab1 w1" "length new1 = 1 \<or> length new1 = 2"
      "f = Break STOPPED_PASS \<longrightarrow> (\<exists>r\<in>set new1. stop_met (stop_on a) r)"
      by blast
    show ?thesis
    proof (cases f)
      case (Break s1)
      with b Suc.prems have "s = s1" "lab' = lab1" "w' = w1" by simp_all
      with n1 Break show ?thesis by (intro exI [of _ new1]) auto
    next
      case (Next d1 t1)
      with b Suc.prems have "run_loop proc a n lab1 w1 d1 t1 = Inr (s, lab', w')" by simp
      from Suc.IH [OF this] obtain new2 where
        n2: "pass_adds proc a lab1 w1 new2 lab' w'" "length new2 \<le> 2 * n"
        "s = STOPPED_PASS \<longrightarrow> (\<exists>r\<in>set new2. stop_met (stop_on a) r)"
        by blast
      have "pass_adds proc a lab w (new1 @ new2) lab' w'"
        using pass_adds_trans [OF n1(1) n2(1)] .
      moreover have "length (new1 @ new2) \<le> 2 * Suc n" using n1(2) n2(2) by auto
      moreover have "s = STOPPED_PASS \<longrightarrow> (\<exists>r\<in>set (new1 @ new2). stop_met (stop_on a) r)"
        using n2(3) by auto
      ultimately show ?thesis by blast
    qed
  qed
qed

lemma loop_body_total:
  assumes "\<forall>k cfg. proc k cfg \<noteq> None"
  shows "\<exists>f lab' w'. loop_body proc a lab w d t = Inr (f, lab', w')"
proof -
  have "proc (launches w) (cfg_at a d t) \<noteq> None" using assms by simp
  from run_once_total [of proc w "cfg_at a d t" lab, OF this] obtain r1 lab1 w1 where
    r1: "run_once proc lab w (cfg_at a d t) = Inr (r1, lab1, w1)" by blast
  let ?t2 = "min (max_terms a) (t * terms_growth lab1)"
  have "proc (launches w1) (cfg_at a d ?t2) \<noteq> None" using assms by simp
  from run_once_total [of proc w1 "cfg_at a d ?t2" lab1, OF this] obtain r2 lab2 w2 where
    r2: "run_once proc lab1 w1 (cfg_at a d ?t2) = Inr (r2, lab2, w2)" by blast
  consider (stop1) "stop_met (stop_on a) r1"
    | (retry) "\<not> stop_met (stop_on a) r1" "rel_err r1 = None \<or> returncode r1 \<noteq> 0"
    | (ceiling) e1 where "\<not> stop_met (stop_on a) r1" "rel_err r1 = Some e1"
        "returncode r1 = 0" "?t2 = t"
    | (second) e1 where "\<not> stop_met (stop_on a) r1" "rel_err r1 = Some e1"
        "returncode r1 = 0" "?t2 \<noteq> t"
    by (cases "rel_err r1") auto
  then show ?thesis
  proof cases
    case stop1
    from loop_body_stop1 [OF r1 stop1] show ?thesis by blast
  next
    case retry
    from loop_body_retry [OF r1 retry] show ?thesis by blast
  next
    case ceiling
    from loop_body_ceiling [OF r1 ceiling] show ?thesis by blast
  next
    case second
    show ?thesis
    proof (cases "stop_met (stop_on a) r2")
      case True
      from loop_body_stop2 [OF r1 second r2 True] show ?thesis by blast
    next
      case False
      from loop_body_decide [OF r1 second r2 False] show ?thesis by blast
    qed
  qed
qed

lemma run_loop_total:
  assumes "\<forall>k cfg. proc k cfg \<noteq> None"
  shows "\<exists>s lab' w'. run_loop proc a n lab w d t = Inr (s, lab', w')"
proof (induction n arbitrary: lab w d t)
  case 0
  show ?case by simp
next
  case (Suc n)
  from loop_body_total [OF assms] obtain f lab1 w1 where
    b: "loop_body proc a lab w d t = Inr (f, lab1, w1)" by blast
  show ?case
  proof (cases f)
    case (Break s1)
    with b show ?thesis by simp
  next
    case (Next d1 t1)
    with b Suc.IH [of lab1 w1 d1 t1] show ?thesis by simp
  qed
qed

lemma run_Inr:
  assumes "run proc a lab w = Inr (rep, s, lab', w')"
  shows "\<exists>w1. run_loop proc a (nat (max_steps a)) lab w (start_dps a) (start_terms a)
               = Inr (s, lab', w1)
             \<and> rep = build_report lab' w1
             \<and> w' = w1\<lparr>files := (files w1)(out_json lab' \<mapsto> rep)\<rparr>"
  using assms by (auto simp: run_def Let_def split: sum.splits prod.splits)



lemma run_total:
  assumes "\<forall>k cfg. proc k cfg \<noteq> None"
  shows "\<exists>rep s lab' w'. run proc a lab w = Inr (rep, s, lab', w')"
proof -
  from run_loop_total [OF assms] obtain s lab' w1 where
    "run_loop proc a (nat (max_steps a)) lab w (start_dps a) (start_terms a) = Inr (s, lab', w1)"
    by blast
  then show ?thesis by (simp add: run_def Let_def)
qed

lemma run_log:
  assumes "run proc a lab w = Inr (rep, s, lab', w')"
  shows "\<exists>new. runs rep = lab_runs lab @ new \<and> lab_runs lab' = runs rep
           \<and> out_json lab' = out_json lab
           \<and> length new \<le> 2 * nat (max_steps a)
           \<and> (\<forall>r\<in>set new. \<exists>k cfg p. proc k cfg = Some p \<and> r = trial_of lab cfg p)
           \<and> (s = STOPPED_PASS \<longrightarrow> (\<exists>r\<in>set new. stop_met (stop_on a) r))"
proof -
  from run_Inr [OF assms] obtain w1 where
    l: "run_loop proc a (nat (max_steps a)) lab w (start_dps a) (start_terms a)
          = Inr (s, lab', w1)"
    and rep: "rep = build_report lab' w1" by blast
  from run_loop_log [OF l] obtain new where
    n: "pass_adds proc a lab w new lab' w1" "length new \<le> 2 * nat (max_steps a)"
    "s = STOPPED_PASS \<longrightarrow> (\<exists>r\<in>set new. stop_met (stop_on a) r)" by blast
  have "runs rep = lab_runs lab @ new" "lab_runs lab' = runs rep" "out_json lab' = out_json lab"
    using n(1) rep by (simp_all add: pass_adds_def build_report_def)
  moreover have "\<forall>r\<in>set new. \<exists>k cfg p. proc k cfg = Some p \<and> r = trial_of lab cfg p"
    using n(1) by (simp add: pass_adds_def)
  ultimately show ?thesis using n(2,3) by blast
qed









lemma run_once_fields:
  assumes "run_once proc lab w cfg = Inr (r, lab1, w1)"
  shows "lab_runs lab1 = lab_runs lab @ [r]" "launches w1 = launches w + 1"
    "precision_bump lab1 = precision_bump lab" "terms_growth lab1 = terms_growth lab"
    "out_json lab1 = out_json lab"
  using run_once_Inr [OF assms] by simp_all

lemma absent_never_stops:
  assumes "run_once proc lab w cfg = Inr (r, lab1, w1)" "rel_err r = None"
  shows "\<not> stop_met stop r"
proof -
  have "status r = ''FAIL''"
    using run_once_status [OF assms(1)] assms(2) by (simp add: classify_def)
  then show ?thesis by (simp add: stop_met_def)
qed

text \<open>
  Claim C6. Whenever a trial has a tier that satisfies the configured stop condition, the
  loop ends at once in the pass state with no further trial: after the first trial of a
  pass the log has grown by that trial only and one process has been launched; after a
  second probe that satisfies it, by the two trials of that pass. In particular, for a lab
  object used for the first time, with a step budget of at least one and \<open>stop_on\<close> one
  of \<open>PASS_STRICT\<close> and \<open>PASS_GUERRILLA\<close>: if the very first trial reports a relative
  error of \<open>1e-13\<close>, the report holds exactly that trial, its best-strict selection is
  that trial, and the report has been written.
\<close>

theorem stop_ends_run:
  "(run_once proc lab w (cfg_at a d t) = Inr (r1, lab1, w1) \<and> stop_met (stop_on a) r1
      \<longrightarrow> run_loop proc a (Suc n) lab w d t = Inr (STOPPED_PASS, lab1, w1)
          \<and> lab_runs lab1 = lab_runs lab @ [r1] \<and> launches w1 = launches w + 1)
   \<and> (run_once proc lab w (cfg_at a d t) = Inr (r1, lab1, w1) \<and> \<not> stop_met (stop_on a) r1
       \<and> rel_err r1 = Some e1 \<and> returncode r1 = 0
       \<and> min (max_terms a) (t * terms_growth lab) \<noteq> t
       \<and> run_once proc lab1 w1 (cfg_at a d (min (max_terms a) (t * terms_growth lab)))
            = Inr (r2, lab2, w2)
       \<and> stop_met (stop_on a) r2
      \<longrightarrow> run_loop proc a (Suc n) lab w d t = Inr (STOPPED_PASS, lab2, w2)
          \<and> lab_runs lab2 = lab_runs lab @ [r1, r2] \<and> launches w2 = launches w + 2)
   \<and> (lab_runs lab = [] \<and> 0 < max_steps a
       \<and> (stop_on a = ''PASS_STRICT'' \<or> stop_on a = ''PASS_GUERRILLA'')
       \<and> run_once proc lab w (cfg_at a (start_dps a) (start_terms a)) = Inr (r1, lab1, w1)
       \<and> rel_err r1 = Some (1 / 10 ^ 13)
      \<longrightarrow> (\<exists>rep w'. run proc a lab w = Inr (rep, STOPPED_PASS, lab1, w')
             \<and> runs rep = [r1] \<and> best rep = Some r1 \<and> launches w' = launches w + 1
             \<and> files w' (out_json lab) = Some rep))"
proof -
  have one: "run_once proc lab w (cfg_at a d t) = Inr (r1, lab1, w1) \<and> stop_met (stop_on a) r1
      \<longrightarrow> run_loop proc a (Suc n) lab w d t = Inr (STOPPED_PASS, lab1, w1)
          \<and> lab_runs lab1 = lab_runs lab @ [r1] \<and> launches w1 = launches w + 1"
    for d t n
  proof
    assume h: "run_once proc lab w (cfg_at a d t) = Inr (r1, lab1, w1) \<and> stop_met (stop_on a) r1"
    then have r: "run_once proc lab w (cfg_at a d t) = Inr (r1, lab1, w1)"
      and s: "stop_met (stop_on a) r1" by simp_all
    from loop_body_stop1 [OF r s]
    have "run_loop proc a (Suc n) lab w d t = Inr (STOPPED_PASS, lab1, w1)" by simp
    with run_once_fields(1,2) [OF r]
    show "run_loop proc a (Suc n) lab w d t = Inr (STOPPED_PASS, lab1, w1)
          \<and> lab_runs lab1 = lab_runs lab @ [r1] \<and> launches w1 = launches w + 1" by simp
  qed
  have two: "run_once proc lab w (cfg_at a d t) = Inr (r1, lab1, w1) \<and> \<not> stop_met (stop_on a) r1
       \<and> rel_err r1 = Some e1 \<and> returncode r1 = 0
       \<and> min (max_terms a) (t * terms_growth lab) \<noteq> t
       \<and> run_once proc lab1 w1 (cfg_at a d (min (max_terms a) (t * terms_growth lab)))
            = Inr (r2, lab2, w2)
       \<and> stop_met (stop_on a) r2
      \<longrightarrow> run_loop proc a (Suc n) lab w d t = Inr (STOPPED_PASS, lab2, w2)
          \<and> lab_runs lab2 = lab_runs lab @ [r1, r2] \<and> launches w2 = launches w + 2"
  proof
    assume h: "run_once proc lab w (cfg_at a d t) = Inr (r1, lab1, w1) \<and> \<not> stop_met (stop_on a) r1
       \<and> rel_err r1 = Some e1 \<and> returncode r1 = 0
       \<and> min (max_terms a) (t * terms_growth lab) \<noteq> t
       \<and> run_once proc lab1 w1 (cfg_at a d (min (max_terms a) (t * terms_growth lab)))
            = Inr (r2, lab2, w2)
       \<and> stop_met (stop_on a) r2"
    then have r: "run_once proc lab w (cfg_at a d t) = Inr (r1, lab1, w1)" by simp
    note f1 = run_once_fields [OF r]
    from h have c: "\<not> stop_met (stop_on a) r1" "rel_err r1 = Some e1" "returncode r1 = 0"
      "min (max_terms a) (t * terms_growth lab1) \<noteq> t"
      and r2: "run_once proc lab1 w1 (cfg_at a d (min (max_terms a) (t * terms_growth lab1)))
            = Inr (r2, lab2, w2)"
      and s2: "stop_met (stop_on a) r2"
      unfolding f1(4) by simp_all
    from loop_body_stop2 [OF r c r2 s2]
    have "run_loop proc a (Suc n) lab w d t = Inr (STOPPED_PASS, lab2, w2)" by simp
    with f1(1,2) run_once_fields(1,2) [OF r2]
    show "run_loop proc a (Suc n) lab w d t = Inr (STOPPED_PASS, lab2, w2)
          \<and> lab_runs lab2 = lab_runs lab @ [r1, r2] \<and> launches w2 = launches w + 2" by simp
  qed
  have three: "lab_runs lab = [] \<and> 0 < max_steps a
       \<and> (stop_on a = ''PASS_STRICT'' \<or> stop_on a = ''PASS_GUERRILLA'')
       \<and> run_once proc lab w (cfg_at a (start_dps a) (start_terms a)) = Inr (r1, lab1, w1)
       \<and> rel_err r1 = Some (1 / 10 ^ 13)
      \<longrightarrow> (\<exists>rep w'. run proc a lab w = Inr (rep, STOPPED_PASS, lab1, w')
             \<and> runs rep = [r1] \<and> best rep = Some r1 \<and> launches w' = launches w + 1
             \<and> files w' (out_json lab) = Some rep)"
  proof
    assume h: "lab_runs lab = [] \<and> 0 < max_steps a
       \<and> (stop_on a = ''PASS_STRICT'' \<or> stop_on a = ''PASS_GUERRILLA'')
       \<and> run_once proc lab w (cfg_at a (start_dps a) (start_terms a)) = Inr (r1, lab1, w1)
       \<and> rel_err r1 = Some (1 / 10 ^ 13)"
    then have r: "run_once proc lab w (cfg_at a (start_dps a) (start_terms a)) = Inr (r1, lab1, w1)"
      by simp
    note f1 = run_once_fields [OF r]
    have st: "status r1 = ''PASS_STRICT''"
      using run_once_status [OF r] h by (simp add: classify_def PASS_STRICT_def)
    then have s: "stop_met (stop_on a) r1" using h by (auto simp: stop_met_def)
    from h obtain n where n: "nat (max_steps a) = Suc n"
      by (metis Suc_pred' zero_less_nat_eq)
    have l: "run_loop proc a (nat (max_steps a)) lab w (start_dps a) (start_terms a)
              = Inr (STOPPED_PASS, lab1, w1)"
      unfolding n using one r s by blast
    have log: "lab_runs lab1 = [r1]" using f1(1) h by simp
    let ?rep = "build_report lab1 w1"
    have "run proc a lab w
            = Inr (?rep, STOPPED_PASS, lab1, w1\<lparr>files := (files w1)(out_json lab1 \<mapsto> ?rep)\<rparr>)"
      using l by (simp add: run_def Let_def)
    moreover have "runs ?rep = [r1]" using log by (simp add: build_report_def)
    moreover have "best ?rep = Some r1"
      using log st by (simp add: build_report_def best_by_def)
    moreover have "launches (w1\<lparr>files := (files w1)(out_json lab1 \<mapsto> ?rep)\<rparr>) = launches w + 1"
      using f1(2) by simp
    moreover have "files (w1\<lparr>files := (files w1)(out_json lab1 \<mapsto> ?rep)\<rparr>) (out_json lab)
                     = Some ?rep"
      using f1(5) by simp
    ultimately show "\<exists>rep w'. run proc a lab w = Inr (rep, STOPPED_PASS, lab1, w')
             \<and> runs rep = [r1] \<and> best rep = Some r1 \<and> launches w' = launches w + 1
             \<and> files w' (out_json lab) = Some rep"
      by blast
  qed
  from one two three show ?thesis by (intro conjI)
qed


lemma run_once_Some:
  "proc (launches w) cfg = Some p \<Longrightarrow>
   run_once proc lab w cfg =
     Inr (trial_of lab cfg p, lab\<lparr>lab_runs := lab_runs lab @ [trial_of lab cfg p]\<rparr>,
          w\<lparr>launches := Suc (launches w)\<rparr>)"
  by (simp add: run_once_def Let_def)

lemmas lab_eval = OuroborosLab_default_def OuroborosLab_init_def run_defaults_def world0_def

theorem stop_ends_run_witness:
  "(\<exists>rep lab1 w'.
      run (mock_process ''rel_err = 1e-13'' 1 0) run_defaults (OuroborosLab_default ''exp'') world0
        = Inr (rep, STOPPED_PASS, lab1, w')
      \<and> map summary (runs rep) = [(80, 5000, ''PASS_STRICT'')]
      \<and> best rep = Some (hd (runs rep)) \<and> launches w' = 1)
   \<and> (\<exists>lab2 w2.
      run_loop (mock_threshold 10000 ''rel_err = 1e-5'' ''rel_err = 1e-13'') run_defaults (Suc 0)
        (OuroborosLab_default ''exp'') world0 80 5000 = Inr (STOPPED_PASS, lab2, w2)
      \<and> map summary (lab_runs lab2) = [(80, 5000, ''FAIL''), (80, 10000, ''PASS_STRICT'')]
      \<and> launches w2 = 2)"
proof -
  let ?lab = "OuroborosLab_default ''exp''"
  let ?a = "run_defaults"
  let ?M = "mock_process ''rel_err = 1e-13'' 1 0"
  let ?p = "\<lparr>out_text = ''rel_err = 1e-13'', err_text = [], exit_code = 0, seconds = 1\<rparr>"
  let ?q = "\<lparr>out_text = ''rel_err = 1e-5'', err_text = [], exit_code = 0, seconds = 1\<rparr>"
  let ?c0 = "cfg_at ?a (start_dps ?a) (start_terms ?a)"
  let ?r = "trial_of ?lab ?c0 ?p"
  let ?lab1 = "?lab\<lparr>lab_runs := lab_runs ?lab @ [?r]\<rparr>"
  let ?w1 = "world0\<lparr>launches := Suc (launches world0)\<rparr>"
  have st: "start_dps ?a = 80" "start_terms ?a = 5000" "0 < max_steps ?a"
    "stop_on ?a = ''PASS_STRICT''" "max_terms ?a = 100000"
    by (simp_all add: run_defaults_def)
  have fresh: "lab_runs ?lab = []" "terms_growth ?lab = 2" by (simp_all add: lab_eval)
  have w0: "launches world0 = 0" by (simp add: world0_def)
  have ro: "run_once ?M ?lab world0 ?c0 = Inr (?r, ?lab1, ?w1)"
    by (rule run_once_Some) (simp add: mock_process_def)
  have re: "rel_err ?r = Some (1 / 10 ^ 13)"
    by (simp add: trial_of_simps text_eval)
  have sm: "summary ?r = (80, 5000, ''PASS_STRICT'')"
    by (simp add: summary_def trial_of_simps text_eval classify_def PASS_STRICT_def st)
  have h3: "lab_runs ?lab = [] \<and> 0 < max_steps ?a
       \<and> (stop_on ?a = ''PASS_STRICT'' \<or> stop_on ?a = ''PASS_GUERRILLA'')
       \<and> run_once ?M ?lab world0 ?c0 = Inr (?r, ?lab1, ?w1)
       \<and> rel_err ?r = Some (1 / 10 ^ 13)"
    using fresh(1) st(3) st(4) ro re by blast
  from stop_ends_run [where proc = ?M and a = ?a and lab = ?lab and w = world0
      and ?r1.0 = ?r and ?lab1.0 = ?lab1 and ?w1.0 = ?w1,
      THEN conjunct2, THEN conjunct2, THEN mp, OF h3]
  obtain rep w' where run1:
    "run ?M ?a ?lab world0 = Inr (rep, STOPPED_PASS, ?lab1, w')" "runs rep = [?r]"
    "best rep = Some ?r" "launches w' = launches world0 + 1"
    by blast
  have "run ?M ?a ?lab world0 = Inr (rep, STOPPED_PASS, ?lab1, w')
      \<and> map summary (runs rep) = [(80, 5000, ''PASS_STRICT'')]
      \<and> best rep = Some (hd (runs rep)) \<and> launches w' = 1"
    unfolding run1(2,3,4) w0 using run1(1) sm by simp
  then have first: "\<exists>rep lab1 w'. run ?M ?a ?lab world0 = Inr (rep, STOPPED_PASS, lab1, w')
      \<and> map summary (runs rep) = [(80, 5000, ''PASS_STRICT'')]
      \<and> best rep = Some (hd (runs rep)) \<and> launches w' = 1"
    by (intro exI)
  let ?T = "mock_threshold 10000 ''rel_err = 1e-5'' ''rel_err = 1e-13''"
  let ?c1 = "cfg_at ?a 80 5000"
  let ?t2 = "min (max_terms ?a) (5000 * terms_growth ?lab)"
  let ?c2 = "cfg_at ?a 80 ?t2"
  let ?r1 = "trial_of ?lab ?c1 ?q"
  let ?l1 = "?lab\<lparr>lab_runs := lab_runs ?lab @ [?r1]\<rparr>"
  let ?r2 = "trial_of ?l1 ?c2 ?p"
  let ?l2 = "?l1\<lparr>lab_runs := lab_runs ?l1 @ [?r2]\<rparr>"
  let ?w2 = "?w1\<lparr>launches := Suc (launches ?w1)\<rparr>"
  have grow: "?t2 = 10000" by (simp add: st fresh)
  have t1: "run_once ?T ?lab world0 ?c1 = Inr (?r1, ?l1, ?w1)"
    by (rule run_once_Some) (simp add: mock_threshold_def)
  have t2: "run_once ?T ?l1 ?w1 ?c2 = Inr (?r2, ?l2, ?w2)"
    by (rule run_once_Some) (simp add: mock_threshold_def st fresh)
  have e1: "rel_err ?r1 = Some (1 / 10 ^ 5)" "returncode ?r1 = 0"
    by (simp_all add: trial_of_simps text_eval)
  have s1: "summary ?r1 = (80, 5000, ''FAIL'')"
    by (simp add: summary_def trial_of_simps text_eval classify_def PASS_STRICT_def
        PASS_GUERR_def WARN_TOL_def)
  have s2: "summary ?r2 = (80, 10000, ''PASS_STRICT'')"
    by (simp add: summary_def trial_of_simps text_eval classify_def PASS_STRICT_def st fresh)
  have n1: "\<not> stop_met (stop_on ?a) ?r1" using s1 by (simp add: stop_met_def summary_def st)
  have m2: "stop_met (stop_on ?a) ?r2" using s2 by (simp add: stop_met_def summary_def st)
  have ne: "?t2 \<noteq> 5000" using grow by simp
  have h2: "run_once ?T ?lab world0 ?c1 = Inr (?r1, ?l1, ?w1) \<and> \<not> stop_met (stop_on ?a) ?r1
       \<and> rel_err ?r1 = Some (1 / 10 ^ 5) \<and> returncode ?r1 = 0
       \<and> ?t2 \<noteq> 5000
       \<and> run_once ?T ?l1 ?w1 ?c2 = Inr (?r2, ?l2, ?w2)
       \<and> stop_met (stop_on ?a) ?r2"
    using t1 n1 e1 ne t2 m2 by blast
  note c2 = stop_ends_run [where proc = ?T and a = ?a and lab = ?lab and w = world0 and d = 80
      and t = 5000 and ?r1.0 = ?r1 and ?lab1.0 = ?l1 and ?w1.0 = ?w1 and ?e1.0 = "1 / 10 ^ 5"
      and ?r2.0 = ?r2 and ?lab2.0 = ?l2 and ?w2.0 = ?w2 and n = 0,
      THEN conjunct2, THEN conjunct1, THEN mp, OF h2]
  have "run_loop ?T ?a (Suc 0) ?lab world0 80 5000 = Inr (STOPPED_PASS, ?l2, ?w2)
      \<and> map summary (lab_runs ?l2) = [(80, 5000, ''FAIL''), (80, 10000, ''PASS_STRICT'')]
      \<and> launches ?w2 = 2"
    using c2 s1 s2 fresh(1) w0 by simp
  then have second: "\<exists>lab2 w2. run_loop ?T ?a (Suc 0) ?lab world0 80 5000
        = Inr (STOPPED_PASS, lab2, w2)
      \<and> map summary (lab_runs lab2) = [(80, 5000, ''FAIL''), (80, 10000, ''PASS_STRICT'')]
      \<and> launches w2 = 2"
    by (intro exI)
  from first second show ?thesis by (rule conjI)
qed

text \<open>
  Claim C7, as amended. In every pass whose first trial has an absent relative error, or a
  non-zero exit code together with a tier that does not satisfy the stop condition, the
  policy sets the precision to \<open>min(max_dps, dps + precision_bump)\<close>, runs no second
  probe (one trial appended, one process launched), leaves the series length unchanged and
  goes on with the next pass; no error reaches the caller.
\<close>

theorem failed_trial_bumps_precision:
  "run_once proc lab w (cfg_at a d t) = Inr (r1, lab1, w1)
   \<and> (rel_err r1 = None \<or> (returncode r1 \<noteq> 0 \<and> \<not> stop_met (stop_on a) r1))
   \<longrightarrow> loop_body proc a lab w d t
         = Inr (Next (min (max_dps a) (d + precision_bump lab)) t, lab1, w1)
       \<and> lab_runs lab1 = lab_runs lab @ [r1] \<and> launches w1 = launches w + 1
       \<and> run_loop proc a (Suc n) lab w d t
           = run_loop proc a n lab1 w1 (min (max_dps a) (d + precision_bump lab)) t"
proof
  assume h: "run_once proc lab w (cfg_at a d t) = Inr (r1, lab1, w1)
   \<and> (rel_err r1 = None \<or> (returncode r1 \<noteq> 0 \<and> \<not> stop_met (stop_on a) r1))"
  then have r: "run_once proc lab w (cfg_at a d t) = Inr (r1, lab1, w1)" by simp
  note f = run_once_fields [OF r]
  have ns: "\<not> stop_met (stop_on a) r1"
    using h absent_never_stops [OF r] by blast
  have bad: "rel_err r1 = None \<or> returncode r1 \<noteq> 0" using h by blast
  have b: "loop_body proc a lab w d t
         = Inr (Next (min (max_dps a) (d + precision_bump lab)) t, lab1, w1)"
    using loop_body_retry [OF r ns bad] by (simp add: bump_dps_def f(3))
  then have "run_loop proc a (Suc n) lab w d t
           = run_loop proc a n lab1 w1 (min (max_dps a) (d + precision_bump lab)) t"
    by simp
  with b f(1,2)
  show "loop_body proc a lab w d t
         = Inr (Next (min (max_dps a) (d + precision_bump lab)) t, lab1, w1)
       \<and> lab_runs lab1 = lab_runs lab @ [r1] \<and> launches w1 = launches w + 1
       \<and> run_loop proc a (Suc n) lab w d t
           = run_loop proc a n lab1 w1 (min (max_dps a) (d + precision_bump lab)) t"
    by simp
qed

theorem failed_trial_bumps_precision_witness:
  "rel_err (trial_of (OuroborosLab_default ''exp'') (cfg_at run_defaults 80 5000)
      \<lparr>out_text = ''Traceback'', err_text = [], exit_code = 1, seconds = 1\<rparr>) = None
   \<and> loop_body (mock_process ''Traceback'' 1 1) run_defaults (OuroborosLab_default ''exp'')
        world0 80 5000
      = Inr (Next 120 5000,
          (OuroborosLab_default ''exp'')
            \<lparr>lab_runs := lab_runs (OuroborosLab_default ''exp'')
               @ [trial_of (OuroborosLab_default ''exp'') (cfg_at run_defaults 80 5000)
                    \<lparr>out_text = ''Traceback'', err_text = [], exit_code = 1, seconds = 1\<rparr>]\<rparr>,
          world0\<lparr>launches := Suc (launches world0)\<rparr>)
   \<and> returncode (trial_of (OuroborosLab_default ''exp'') (cfg_at run_defaults 200 5000)
      \<lparr>out_text = ''rel_err = 1e-5'', err_text = [], exit_code = 1, seconds = 1\<rparr>) = 1
   \<and> loop_body (mock_process ''rel_err = 1e-5'' 1 1) run_defaults (OuroborosLab_default ''exp'')
        world0 200 5000
      = Inr (Next 220 5000,
          (OuroborosLab_default ''exp'')
            \<lparr>lab_runs := lab_runs (OuroborosLab_default ''exp'')
               @ [trial_of (OuroborosLab_default ''exp'') (cfg_at run_defaults 200 5000)
                    \<lparr>out_text = ''rel_err = 1e-5'', err_text = [], exit_code = 1, seconds = 1\<rparr>]\<rparr>,
          world0\<lparr>launches := Suc (launches world0)\<rparr>)"
proof -
  let ?lab = "OuroborosLab_default ''exp''"
  let ?a = "run_defaults"
  let ?p = "\<lparr>out_text = ''Traceback'', err_text = [], exit_code = 1, seconds = 1\<rparr>"
  let ?q = "\<lparr>out_text = ''rel_err = 1e-5'', err_text = [], exit_code = 1, seconds = 1\<rparr>"
  let ?r = "trial_of ?lab (cfg_at ?a 80 5000) ?p"
  let ?s = "trial_of ?lab (cfg_at ?a 200 5000) ?q"
  let ?w1 = "world0\<lparr>launches := Suc (launches world0)\<rparr>"
  have st: "max_dps ?a = 220" "stop_on ?a = ''PASS_STRICT''" by (simp_all add: run_defaults_def)
  have bump: "precision_bump ?lab = 40" by (simp add: lab_eval)
  have r1: "run_once (mock_process ''Traceback'' 1 1) ?lab world0 (cfg_at ?a 80 5000)
              = Inr (?r, ?lab\<lparr>lab_runs := lab_runs ?lab @ [?r]\<rparr>, ?w1)"
    by (rule run_once_Some) (simp add: mock_process_def)
  have e1: "rel_err ?r = None" by (simp add: trial_of_simps text_eval)
  have h1: "run_once (mock_process ''Traceback'' 1 1) ?lab world0 (cfg_at ?a 80 5000)
              = Inr (?r, ?lab\<lparr>lab_runs := lab_runs ?lab @ [?r]\<rparr>, ?w1)
            \<and> (rel_err ?r = None \<or> (returncode ?r \<noteq> 0 \<and> \<not> stop_met (stop_on ?a) ?r))"
    using r1 e1 by blast
  note c1 = failed_trial_bumps_precision [where proc = "mock_process ''Traceback'' 1 1"
      and a = ?a and lab = ?lab and w = world0 and d = 80 and t = 5000 and ?r1.0 = ?r
      and ?lab1.0 = "?lab\<lparr>lab_runs := lab_runs ?lab @ [?r]\<rparr>" and ?w1.0 = ?w1 and n = 0,
      THEN mp, OF h1, THEN conjunct1]
  have r2: "run_once (mock_process ''rel_err = 1e-5'' 1 1) ?lab world0 (cfg_at ?a 200 5000)
              = Inr (?s, ?lab\<lparr>lab_runs := lab_runs ?lab @ [?s]\<rparr>, ?w1)"
    by (rule run_once_Some) (simp add: mock_process_def)
  have e2: "returncode ?s = 1" by (simp add: trial_of_simps)
  have "status ?s = ''FAIL''"
    by (simp add: trial_of_simps text_eval classify_def PASS_STRICT_def PASS_GUERR_def
        WARN_TOL_def)
  then have n2: "\<not> stop_met (stop_on ?a) ?s" by (simp add: stop_met_def)
  have h2: "run_once (mock_process ''rel_err = 1e-5'' 1 1) ?lab world0 (cfg_at ?a 200 5000)
              = Inr (?s, ?lab\<lparr>lab_runs := lab_runs ?lab @ [?s]\<rparr>, ?w1)
            \<and> (rel_err ?s = None \<or> (returncode ?s \<noteq> 0 \<and> \<not> stop_met (stop_on ?a) ?s))"
    using r2 e2 n2 by simp
  note c2 = failed_trial_bumps_precision [where proc = "mock_process ''rel_err = 1e-5'' 1 1"
      and a = ?a and lab = ?lab and w = world0 and d = 200 and t = 5000 and ?r1.0 = ?s
      and ?lab1.0 = "?lab\<lparr>lab_runs := lab_runs ?lab @ [?s]\<rparr>" and ?w1.0 = ?w1 and n = 0,
      THEN mp, OF h2, THEN conjunct1]
  have m1: "min (max_dps ?a) (80 + precision_bump ?lab) = 120"
    "min (max_dps ?a) (200 + precision_bump ?lab) = 220"
    by (simp_all add: st bump)
  from e1 c1 e2 c2 show ?thesis unfolding m1 by (intro conjI)
qed

text \<open>
  Claim C7 as stated fails: a first trial with a non-zero exit code whose output carries a
  relative error in the stop tier ends the loop in the pass state; precision is not raised
  and the loop does not continue.
\<close>

theorem crashed_pass_stops_counterexample:
  "returncode (trial_of (OuroborosLab_default ''exp'') (cfg_at run_defaults 80 5000)
      \<lparr>out_text = ''rel_err = 1e-13'', err_text = [], exit_code = 1, seconds = 1\<rparr>) = 1
   \<and> loop_body (mock_process ''rel_err = 1e-13'' 1 1) run_defaults (OuroborosLab_default ''exp'')
        world0 80 5000
      = Inr (Break STOPPED_PASS,
          (OuroborosLab_default ''exp'')
            \<lparr>lab_runs := lab_runs (OuroborosLab_default ''exp'')
               @ [trial_of (OuroborosLab_default ''exp'') (cfg_at run_defaults 80 5000)
                    \<lparr>out_text = ''rel_err = 1e-13'', err_text = [], exit_code = 1, seconds = 1\<rparr>]\<rparr>,
          world0\<lparr>launches := Suc (launches world0)\<rparr>)
   \<and> outcome (run (mock_process ''rel_err = 1e-13'' 1 1) run_defaults
                 (OuroborosLab_default ''exp'') world0)
      = Some (STOPPED_PASS, [(80, 5000, ''PASS_STRICT'')], Some (80, 5000, ''PASS_STRICT''),
              Some (80, 5000, ''PASS_STRICT''))"
proof -
  let ?lab = "OuroborosLab_default ''exp''"
  let ?a = "run_defaults"
  let ?p = "\<lparr>out_text = ''rel_err = 1e-13'', err_text = [], exit_code = 1, seconds = 1\<rparr>"
  let ?r = "trial_of ?lab (cfg_at ?a 80 5000) ?p"
  let ?w1 = "world0\<lparr>launches := Suc (launches world0)\<rparr>"
  have r1: "run_once (mock_process ''rel_err = 1e-13'' 1 1) ?lab world0 (cfg_at ?a 80 5000)
              = Inr (?r, ?lab\<lparr>lab_runs := lab_runs ?lab @ [?r]\<rparr>, ?w1)"
    by (rule run_once_Some) (simp add: mock_process_def)
  have "status ?r = ''PASS_STRICT''"
    by (simp add: trial_of_simps text_eval classify_def PASS_STRICT_def)
  then have s: "stop_met (stop_on ?a) ?r" by (simp add: stop_met_def run_defaults_def)
  have a: "returncode ?r = 1" by (simp add: trial_of_simps)
  have c: "outcome (run (mock_process ''rel_err = 1e-13'' 1 1) ?a ?lab world0)
      = Some (STOPPED_PASS, [(80, 5000, ''PASS_STRICT'')], Some (80, 5000, ''PASS_STRICT''),
              Some (80, 5000, ''PASS_STRICT''))"
    by code_simp
  from a loop_body_stop1 [OF r1 s] c show ?thesis by (intro conjI)
qed






lemma best_by_none:
  "\<forall>r\<in>set (lab_runs lab). \<not> P r \<Longrightarrow> best_by P lab = None"
  using best_by_spec [of P lab] by blast

lemma stop_met_status:
  "stop_met stop r \<Longrightarrow> status r = ''PASS_STRICT'' \<or> status r = ''PASS_GUERRILLA''"
  by (auto simp: stop_met_def)

text \<open>
  Claim C8, as amended. Take a lab object used for the first time, a step budget of 5, and an
  external process that at every launch prints a relative error of \<open>1e-5\<close>. Then \<open>run\<close>
  ends by exhausting the budget or by cannot-grow, with at most 10 trials recorded (two for
  each step of the budget), and the report has no best-strict and no best-guerrilla
  selection. With the default settings and a process that prints \<open>rel_err = 1e-5\<close> and
  exits with zero, it ends by cannot-grow in the fourth pass, with 8 trials recorded.
\<close>

theorem stuck_run_ends_without_pass:
  "(lab_runs lab = [] \<and> max_steps a = 5
    \<and> (\<forall>k cfg. \<exists>p. proc k cfg = Some p
          \<and> parse_float RE_RELERR (out_text p @ [CHR 0x0A] @ err_text p) = Some (1 / 10 ^ 5))
    \<longrightarrow> (\<exists>rep s lab' w'. run proc a lab w = Inr (rep, s, lab', w')
           \<and> (s = STOPPED_BUDGET \<or> s = STOPPED_CANNOT_GROW)
           \<and> length (runs rep) \<le> 10 \<and> best rep = None \<and> best_guerrilla rep = None))
   \<and> outcome (run (mock_process ''rel_err = 1e-5'' 1 0) (run_defaults\<lparr>max_steps := 5\<rparr>)
                 (OuroborosLab_default ''exp'') world0)
      = Some (STOPPED_CANNOT_GROW,
              [(80, 5000, ''FAIL''), (80, 10000, ''FAIL''), (120, 10000, ''FAIL''),
               (120, 20000, ''FAIL''), (200, 20000, ''FAIL''), (200, 40000, ''FAIL''),
               (220, 80000, ''FAIL''), (220, 100000, ''FAIL'')],
              None, None)"
proof
  show "lab_runs lab = [] \<and> max_steps a = 5
    \<and> (\<forall>k cfg. \<exists>p. proc k cfg = Some p
          \<and> parse_float RE_RELERR (out_text p @ [CHR 0x0A] @ err_text p) = Some (1 / 10 ^ 5))
    \<longrightarrow> (\<exists>rep s lab' w'. run proc a lab w = Inr (rep, s, lab', w')
           \<and> (s = STOPPED_BUDGET \<or> s = STOPPED_CANNOT_GROW)
           \<and> length (runs rep) \<le> 10 \<and> best rep = None \<and> best_guerrilla rep = None)"
  proof
    assume h: "lab_runs lab = [] \<and> max_steps a = 5
      \<and> (\<forall>k cfg. \<exists>p. proc k cfg = Some p
          \<and> parse_float RE_RELERR (out_text p @ [CHR 0x0A] @ err_text p) = Some (1 / 10 ^ 5))"
    then have fresh: "lab_runs lab = []" and steps: "max_steps a = 5"
      and always: "\<And>k cfg. \<exists>p. proc k cfg = Some p
          \<and> parse_float RE_RELERR (out_text p @ [CHR 0x0A] @ err_text p) = Some (1 / 10 ^ 5)"
      by simp_all
    have "\<forall>k cfg. proc k cfg \<noteq> None"
    proof (intro allI)
      fix k cfg
      from always [of k cfg] show "proc k cfg \<noteq> None" by auto
    qed
    from run_total [OF this] obtain rep s lab' w' where
      r: "run proc a lab w = Inr (rep, s, lab', w')" by blast
    from run_log [OF r] obtain new where
      log: "runs rep = lab_runs lab @ new" "lab_runs lab' = runs rep"
      and len: "length new \<le> 2 * nat (max_steps a)"
      and made: "\<forall>r\<in>set new. \<exists>k cfg p. proc k cfg = Some p \<and> r = trial_of lab cfg p"
      and pass: "s = STOPPED_PASS \<longrightarrow> (\<exists>r\<in>set new. stop_met (stop_on a) r)"
      by blast
    have fail: "status x = ''FAIL''" if "x \<in> set new" for x
    proof -
      from made that obtain k cfg p where p: "proc k cfg = Some p" "x = trial_of lab cfg p"
        by blast
      from always [of k cfg] p(1)
      have "parse_float RE_RELERR (out_text p @ [CHR 0x0A] @ err_text p) = Some (1 / 10 ^ 5)"
        by auto
      then show ?thesis
        unfolding p(2)
        by (simp add: trial_of_simps classify_def PASS_STRICT_def PASS_GUERR_def WARN_TOL_def)
    qed
    have all: "lab_runs lab' = new" using log fresh by simp
    have "s \<noteq> STOPPED_PASS"
    proof
      assume "s = STOPPED_PASS"
      with pass obtain x where "x \<in> set new" "stop_met (stop_on a) x" by blast
      with fail stop_met_status show False by fastforce
    qed
    then have state: "s = STOPPED_BUDGET \<or> s = STOPPED_CANNOT_GROW" by (cases s) simp_all
    have count: "length (runs rep) \<le> 10" using len log fresh steps by simp
    have rep: "rep = build_report lab' w'" using run_report [OF r] .
    have "best_by (\<lambda>r. status r = ''PASS_STRICT'') lab' = None"
      by (rule best_by_none) (simp add: all fail)
    then have b: "best rep = None" unfolding rep by (simp add: build_report_def)
    have "best_by (\<lambda>r. status r = ''PASS_STRICT'' \<or> status r = ''PASS_GUERRILLA'') lab' = None"
      by (rule best_by_none) (simp add: all fail)
    then have g: "best_guerrilla rep = None" unfolding rep by (simp add: build_report_def)
    from r state count b g
    show "\<exists>rep s lab' w'. run proc a lab w = Inr (rep, s, lab', w')
           \<and> (s = STOPPED_BUDGET \<or> s = STOPPED_CANNOT_GROW)
           \<and> length (runs rep) \<le> 10 \<and> best rep = None \<and> best_guerrilla rep = None"
      by blast
  qed
  show "outcome (run (mock_process ''rel_err = 1e-5'' 1 0) (run_defaults\<lparr>max_steps := 5\<rparr>)
                 (OuroborosLab_default ''exp'') world0)
      = Some (STOPPED_CANNOT_GROW,
              [(80, 5000, ''FAIL''), (80, 10000, ''FAIL''), (120, 10000, ''FAIL''),
               (120, 20000, ''FAIL''), (200, 20000, ''FAIL''), (200, 40000, ''FAIL''),
               (220, 80000, ''FAIL''), (220, 100000, ''FAIL'')],
              None, None)"
    by code_simp
qed

theorem stuck_run_ends_without_pass_witness:
  "\<exists>rep s lab' w'.
     run (mock_process ''rel_err = 1e-5'' 1 0) (run_defaults\<lparr>max_steps := 5\<rparr>)
       (OuroborosLab_default ''exp'') world0 = Inr (rep, s, lab', w')
     \<and> (s = STOPPED_BUDGET \<or> s = STOPPED_CANNOT_GROW)
     \<and> length (runs rep) \<le> 10 \<and> best rep = None \<and> best_guerrilla rep = None"
proof -
  let ?M = "mock_process ''rel_err = 1e-5'' 1 0"
  have p: "parse_float RE_RELERR (''rel_err = 1e-5'' @ [CHR 0x0A] @ []) = Some (1 / 10 ^ 5)"
    by (simp add: text_eval)
  have always: "\<forall>k cfg. \<exists>p. ?M k cfg = Some p
          \<and> parse_float RE_RELERR (out_text p @ [CHR 0x0A] @ err_text p) = Some (1 / 10 ^ 5)"
    using p by (simp add: mock_process_def)
  have h: "lab_runs (OuroborosLab_default ''exp'') = []
    \<and> max_steps (run_defaults\<lparr>max_steps := 5\<rparr>) = 5
    \<and> (\<forall>k cfg. \<exists>p. ?M k cfg = Some p
          \<and> parse_float RE_RELERR (out_text p @ [CHR 0x0A] @ err_text p) = Some (1 / 10 ^ 5))"
    using always by (simp add: lab_eval)
  from stuck_run_ends_without_pass [where proc = ?M and a = "run_defaults\<lparr>max_steps := 5\<rparr>"
      and lab = "OuroborosLab_default ''exp''" and w = world0, THEN conjunct1, THEN mp, OF h]
  show ?thesis .
qed

text \<open>
  Claim C8 as stated fails: with \<open>max_steps = 5\<close> and the default settings, 8 trials are
  recorded, not 5 or fewer; the budget counts passes, and a pass runs up to two trials.
\<close>

theorem stuck_run_eight_trials_counterexample:
  "map_option (length \<circ> fst \<circ> snd)
     (outcome (run (mock_process ''rel_err = 1e-5'' 1 0) (run_defaults\<lparr>max_steps := 5\<rparr>)
                 (OuroborosLab_default ''exp'') world0)) = Some 8
   \<and> \<not> (8::nat) \<le> 5"
proof -
  have "map_option (length \<circ> fst \<circ> snd)
     (outcome (run (mock_process ''rel_err = 1e-5'' 1 0) (run_defaults\<lparr>max_steps := 5\<rparr>)
                 (OuroborosLab_default ''exp'') world0)) = Some 8"
    by code_simp
  then show ?thesis by simp
qed

end
